theory Spec2Isabelle
  imports Complex_Main "HOL-Library.Word" "HOL-Library.Signed_Division"
begin

section \<open>Machine integers\<close>

text \<open>
  Go's \<open>int\<close> is taken at its 64-bit width (the width on every platform the release
  workflow builds for); \<open>int64\<close> and \<open>int32\<close> are what their names say. Addition and
  subtraction wrap, comparisons with \<open>0\<close> are signed (\<open>0 <s x\<close>).
\<close>

type_synonym go_int = "64 word"
type_synonym int64 = "64 word"
type_synonym int32 = "32 word"

text \<open>
  Go's \<open>/\<close> on signed integers truncates towards zero and panics on a zero divisor; the
  callers below test the divisor first, \<open>go_div\<close> is the quotient where it is defined.
\<close>

definition go_div :: "int64 \<Rightarrow> int64 \<Rightarrow> int64" where
  "go_div a b = word_of_int (sint a sdiv sint b)"

section \<open>Result model (result.go)\<close>

type_synonym ProxyType = string
type_synonym ProxyStatus = string

definition Auto :: ProxyType where "Auto = ''auto''"
definition HTTP :: ProxyType where "HTTP = ''http''"
definition HTTPS :: ProxyType where "HTTPS = ''https''"
definition SOCKS4 :: ProxyType where "SOCKS4 = ''socks4''"
definition SOCKS5 :: ProxyType where "SOCKS5 = ''socks5''"
definition UNKNOWN :: ProxyType where "UNKNOWN = ''unknown''"

definition StatusPending :: ProxyStatus where "StatusPending = ''pending''"
definition StatusChecking :: ProxyStatus where "StatusChecking = ''checking''"
definition StatusLive :: ProxyStatus where "StatusLive = ''live''"
definition StatusDead :: ProxyStatus where "StatusDead = ''dead''"
definition StatusError :: ProxyStatus where "StatusError = ''error''"

text \<open>
  \<open>Timestamp\<close> is a \<open>time.Time\<close>; it is kept as a number of nanoseconds, \<open>0\<close> for the
  zero value a struct literal leaves there.
\<close>

record ProxyResult =
  Proxy :: string
  Type :: ProxyType
  Status :: ProxyStatus
  Latency :: int64
  OutgoingIP :: string
  Country :: string
  CountryCode :: string
  Error :: string
  Timestamp :: int
  Anonymous :: bool
  SupportsHTTPS :: bool

text \<open>The zero value of the struct, which every struct literal starts from.\<close>

definition zero_result :: ProxyResult where
  "zero_result = \<lparr>Proxy = [], Type = [], Status = [], Latency = 0, OutgoingIP = [],
     Country = [], CountryCode = [], Error = [], Timestamp = 0, Anonymous = False,
     SupportsHTTPS = False\<rparr>"

section \<open>Statistics (stats.go)\<close>

text \<open>
  \<open>SuccessRate\<close> is a \<open>float64\<close>; it is kept as an exact rational, and the theorems
  below only read it at values a \<open>float64\<close> holds exactly. The four clock-derived
  fields (\<open>ChecksPerSecond\<close>, \<open>StartTime\<close>, \<open>ElapsedTime\<close>, \<open>EstimatedTimeRemaining\<close>)
  are left out: they are written from \<open>time.Now\<close> only and no counter reads them.
\<close>

record Stats =
  Total :: go_int
  Live :: go_int
  Dead :: go_int
  Errors :: go_int
  Pending :: go_int
  Checking :: go_int
  TypeCounts :: "ProxyType \<rightharpoonup> go_int"
  SuccessRate :: rat
  AverageSpeed :: int64
  ThreadCount :: go_int

definition zero_stats :: Stats where
  "zero_stats = \<lparr>Total = 0, Live = 0, Dead = 0, Errors = 0, Pending = 0, Checking = 0,
     TypeCounts = Map.empty, SuccessRate = 0, AverageSpeed = 0, ThreadCount = 0\<rparr>"

text \<open>\<open>m[k]++\<close> on a Go map: a missing key reads as \<open>0\<close>.\<close>

definition map_incr :: "(ProxyType \<rightharpoonup> go_int) \<Rightarrow> ProxyType \<Rightarrow> (ProxyType \<rightharpoonup> go_int)" where
  "map_incr tc t = tc(t \<mapsto> (case tc t of None \<Rightarrow> 0 | Some c \<Rightarrow> c) + 1)"

record StatsTracker =
  st_stats :: Stats
  totalTime :: int64
  totalCount :: go_int

definition NewStatsTracker :: StatsTracker where
  "NewStatsTracker = \<lparr>st_stats = zero_stats, totalTime = 0, totalCount = 0\<rparr>"

definition Reset :: "go_int \<Rightarrow> StatsTracker \<Rightarrow> StatsTracker" where
  "Reset totalProxies st =
     \<lparr>st_stats = zero_stats\<lparr>Total := totalProxies, Pending := totalProxies\<rparr>,
      totalTime = 0, totalCount = 0\<rparr>"

text \<open>
  The tail shared by \<open>UpdateWithResult\<close> and \<open>MarkCheckingAsDead\<close>:
  \<open>completedChecks := Live + Dead + Errors\<close>, and the rate is rewritten only when that
  is positive.
\<close>

definition recalc_success :: "Stats \<Rightarrow> Stats" where
  "recalc_success s =
     (let completedChecks = Live s + Dead s + Errors s
      in if 0 <s completedChecks
         then s\<lparr>SuccessRate := of_int (sint (Live s)) / of_int (sint completedChecks) * 100\<rparr>
         else s)"

text \<open>
  The \<open>switch result.Status\<close> of \<open>UpdateWithResult\<close>. It has no default branch, so a
  status outside the five constants changes no counter. In the live branch the divisor
  \<open>int64(st.totalCount)\<close> has just been incremented; Go panics if it is zero, which is
  the value \<open>None\<close>.
\<close>

definition update_status :: "ProxyResult \<Rightarrow> StatsTracker \<Rightarrow> StatsTracker option" where
  "update_status result st =
     (let s = st_stats st in
      if Status result = StatusLive then
        (let st1 = st\<lparr>st_stats := s\<lparr>Live := Live s + 1, Pending := Pending s - 1\<rparr>\<rparr>
         in if 0 <s Latency result then
              (let tt = totalTime st + Latency result; tc = totalCount st + 1
               in if tc = 0 then None
                  else Some (st1\<lparr>st_stats := (st_stats st1)\<lparr>AverageSpeed := go_div tt tc\<rparr>,
                                  totalTime := tt, totalCount := tc\<rparr>))
            else Some st1)
      else if Status result = StatusDead then
        Some (st\<lparr>st_stats := s\<lparr>Dead := Dead s + 1, Pending := Pending s - 1\<rparr>\<rparr>)
      else if Status result = StatusError then
        Some (st\<lparr>st_stats := s\<lparr>Errors := Errors s + 1, Pending := Pending s - 1\<rparr>\<rparr>)
      else if Status result = StatusChecking then
        Some (st\<lparr>st_stats := s\<lparr>Checking := Checking s + 1, Pending := Pending s - 1\<rparr>\<rparr>)
      else Some st)"

definition update_type :: "ProxyResult \<Rightarrow> StatsTracker \<Rightarrow> StatsTracker" where
  "update_type result st =
     (if Type result \<noteq> []
      then st\<lparr>st_stats := (st_stats st)\<lparr>TypeCounts := map_incr (TypeCounts (st_stats st)) (Type result)\<rparr>\<rparr>
      else st)"

definition UpdateWithResult :: "ProxyResult \<Rightarrow> StatsTracker \<Rightarrow> StatsTracker option" where
  "UpdateWithResult result st =
     (case update_status result (update_type result st) of
        None \<Rightarrow> None
      | Some st' \<Rightarrow> Some (st'\<lparr>st_stats := recalc_success (st_stats st')\<rparr>))"

definition MarkCheckingAsDead :: "StatsTracker \<Rightarrow> StatsTracker" where
  "MarkCheckingAsDead st =
     (let s = st_stats st
      in st\<lparr>st_stats := recalc_success (s\<lparr>Dead := Dead s + Checking s, Checking := 0\<rparr>)\<rparr>)"

text \<open>\<open>StatsTracker.GetStats\<close> copies every field but \<open>ThreadCount\<close>.\<close>

definition StatsTracker_GetStats :: "StatsTracker \<Rightarrow> Stats" where
  "StatsTracker_GetStats st = (st_stats st)\<lparr>ThreadCount := 0\<rparr>"

text \<open>The counter equation of the data model.\<close>

definition counters_balanced :: "Stats \<Rightarrow> bool" where
  "counters_balanced s \<longleftrightarrow> Pending s + Checking s + Live s + Dead s + Errors s = Total s"

text \<open>
  A history of calls on one tracker, to state what holds of every tracker a program can
  build: \<open>apply_ops\<close> runs the calls in order and stops at a panic.
\<close>

datatype tracker_op = OpReset go_int | OpUpdate ProxyResult | OpMarkCheckingAsDead

fun apply_op :: "tracker_op \<Rightarrow> StatsTracker \<Rightarrow> StatsTracker option" where
  "apply_op (OpReset n) st = Some (Reset n st)"
| "apply_op (OpUpdate r) st = UpdateWithResult r st"
| "apply_op OpMarkCheckingAsDead st = Some (MarkCheckingAsDead st)"

fun apply_ops :: "tracker_op list \<Rightarrow> StatsTracker \<Rightarrow> StatsTracker option" where
  "apply_ops [] st = Some st"
| "apply_ops (x # xs) st = (case apply_op x st of None \<Rightarrow> None | Some st' \<Rightarrow> apply_ops xs st')"

text \<open>
  The latencies a history has folded into the mean since the last \<open>Reset\<close>: those of the
  live results with a strictly positive latency.
\<close>

definition counted :: "ProxyResult \<Rightarrow> bool" where
  "counted r \<longleftrightarrow> Status r = StatusLive \<and> 0 <s Latency r"

fun counted_latencies :: "int64 list \<Rightarrow> tracker_op list \<Rightarrow> int64 list" where
  "counted_latencies acc [] = acc"
| "counted_latencies acc (OpReset n # xs) = counted_latencies [] xs"
| "counted_latencies acc (OpUpdate r # xs) =
     counted_latencies (if counted r then acc @ [Latency r] else acc) xs"
| "counted_latencies acc (OpMarkCheckingAsDead # xs) = counted_latencies acc xs"

definition mean_of :: "int64 list \<Rightarrow> int64" where
  "mean_of c = (if c = [] then 0 else go_div (sum_list c) (of_nat (length c)))"

text \<open>
  What the tracker's three private fields hold after a history whose counted latencies
  are \<open>c\<close>.
\<close>

definition mean_inv :: "int64 list \<Rightarrow> StatsTracker \<Rightarrow> bool" where
  "mean_inv c st \<longleftrightarrow> totalTime st = sum_list c \<and> totalCount st = of_nat (length c) \<and>
     AverageSpeed (st_stats st) = mean_of c"

section \<open>Protocol probes (result.go) and auto-detection (auto_detect.go)\<close>

text \<open>
  A Go \<open>error\<close> is kept as its message, the text \<open>err.Error()\<close> gives; a probe returns
  \<open>Inl\<close> of it, or \<open>Inr\<close> of the outgoing address. What a probe does on the wire is not
  a function of its arguments: it is a parameter, a \<open>network\<close>, which also reports the
  connections it opened. The guards each probe runs before it touches the wire are
  code. The timeout is the constant \<open>10 * time.Second\<close> at every call and is part of
  the network's behaviour.
\<close>

definition ErrInvalidProxyFormat :: string where
  "ErrInvalidProxyFormat = ''invalid proxy format''"
definition ErrUnsupportedProxyType :: string where
  "ErrUnsupportedProxyType = ''unsupported proxy type''"
definition ErrProxyConnectionFailed :: string where
  "ErrProxyConnectionFailed = ''proxy connection failed''"
definition ErrEmptyResponse :: string where
  "ErrEmptyResponse = ''empty response from endpoint''"

datatype net_event = Connect string

type_synonym probe_result = "net_event list \<times> (string + string)"

record network =
  checkSOCKS5Quick :: "string \<Rightarrow> bool"
  checkSOCKS4Quick :: "string \<Rightarrow> bool"
  checkHTTPSQuick :: "string \<Rightarrow> bool"
  checkHTTPQuick :: "string \<Rightarrow> bool"
  http_exchange :: "string \<Rightarrow> string \<Rightarrow> string \<Rightarrow> ProxyType \<Rightarrow> probe_result"
  https_exchange :: "string \<Rightarrow> string \<Rightarrow> string \<Rightarrow> ProxyType \<Rightarrow> probe_result"
  socks4_exchange :: "string \<Rightarrow> string \<Rightarrow> probe_result"
  socks5_exchange :: "string \<Rightarrow> string \<Rightarrow> probe_result"

definition CheckHTTP :: "network \<Rightarrow> string \<Rightarrow> string \<Rightarrow> string \<Rightarrow> ProxyType \<Rightarrow> probe_result" where
  "CheckHTTP nw proxyAddr endpoint upstreamProxy upstreamType =
     (if CHR '':'' \<notin> set proxyAddr then ([], Inl ErrInvalidProxyFormat)
      else http_exchange nw proxyAddr endpoint upstreamProxy upstreamType)"

definition CheckHTTPS :: "network \<Rightarrow> string \<Rightarrow> string \<Rightarrow> string \<Rightarrow> ProxyType \<Rightarrow> probe_result" where
  "CheckHTTPS nw proxyAddr endpoint upstreamProxy upstreamType =
     (if CHR '':'' \<notin> set proxyAddr then ([], Inl ErrInvalidProxyFormat)
      else https_exchange nw proxyAddr endpoint upstreamProxy upstreamType)"

definition CheckSOCKS4 :: "network \<Rightarrow> string \<Rightarrow> string \<Rightarrow> string \<Rightarrow> ProxyType \<Rightarrow> probe_result" where
  "CheckSOCKS4 nw proxyAddr endpoint upstreamProxy upstreamType =
     (if CHR '':'' \<notin> set proxyAddr then ([], Inl ErrInvalidProxyFormat)
      else if upstreamProxy \<noteq> [] then ([], Inl ''upstream proxy not supported for SOCKS4 checks'')
      else socks4_exchange nw proxyAddr endpoint)"

definition CheckSOCKS5 :: "network \<Rightarrow> string \<Rightarrow> string \<Rightarrow> string \<Rightarrow> ProxyType \<Rightarrow> probe_result" where
  "CheckSOCKS5 nw proxyAddr endpoint upstreamProxy upstreamType =
     (if CHR '':'' \<notin> set proxyAddr then ([], Inl ErrInvalidProxyFormat)
      else if upstreamProxy \<noteq> [] then ([], Inl ''upstream proxy not supported for SOCKS5 checks'')
      else socks5_exchange nw proxyAddr endpoint)"

text \<open>
  \<open>DetectProxyType\<close>: the table of quick checks and the loop over it. The loop also
  returns the kinds it tried, in the order it tried them.
\<close>

definition protocols :: "network \<Rightarrow> ((string \<Rightarrow> bool) \<times> ProxyType) list" where
  "protocols nw = [(checkSOCKS5Quick nw, SOCKS5), (checkSOCKS4Quick nw, SOCKS4),
                   (checkHTTPSQuick nw, HTTPS), (checkHTTPQuick nw, HTTP)]"

fun detect_loop :: "((string \<Rightarrow> bool) \<times> ProxyType) list \<Rightarrow> string \<Rightarrow> ProxyType list \<Rightarrow>
    ProxyType list \<times> (string + ProxyType)" where
  "detect_loop [] proxy tried = (tried, Inl ''could not detect proxy type'')"
| "detect_loop ((checkFunc, proxyType) # rest) proxy tried =
     (if checkFunc proxy then (tried @ [proxyType], Inr proxyType)
      else detect_loop rest proxy (tried @ [proxyType]))"

definition DetectProxyType :: "network \<Rightarrow> string \<Rightarrow> ProxyType list \<times> (string + ProxyType)" where
  "DetectProxyType nw proxy = detect_loop (protocols nw) proxy []"

text \<open>
  Three networks to evaluate the definitions on: one where every candidate refuses the
  connection, one where the candidates speak SOCKS5 and nothing else, and one where
  they are HTTP proxies.
\<close>

definition refusing_network :: network where
  "refusing_network =
     \<lparr>checkSOCKS5Quick = (\<lambda>proxy. False), checkSOCKS4Quick = (\<lambda>proxy. False),
      checkHTTPSQuick = (\<lambda>proxy. False), checkHTTPQuick = (\<lambda>proxy. False),
      http_exchange = (\<lambda>proxyAddr endpoint upstreamProxy upstreamType.
         ([Connect proxyAddr], Inl ''proxy connection failed: connection refused'')),
      https_exchange = (\<lambda>proxyAddr endpoint upstreamProxy upstreamType.
         ([Connect proxyAddr], Inl ''proxy connection failed: connection refused'')),
      socks4_exchange = (\<lambda>proxyAddr endpoint.
         ([Connect proxyAddr], Inl ''SOCKS4 connection failed: connection refused'')),
      socks5_exchange = (\<lambda>proxyAddr endpoint.
         ([Connect proxyAddr], Inl ''SOCKS5 connection failed: connection refused''))\<rparr>"

definition socks5_network :: network where
  "socks5_network =
     refusing_network\<lparr>checkSOCKS5Quick := (\<lambda>proxy. True),
       socks5_exchange := (\<lambda>proxyAddr endpoint. ([Connect proxyAddr], Inr ''203.0.113.5''))\<rparr>"

definition http_network :: network where
  "http_network =
     refusing_network\<lparr>checkHTTPQuick := (\<lambda>proxy. True),
       http_exchange := (\<lambda>proxyAddr endpoint upstreamProxy upstreamType.
         ([Connect proxyAddr], Inr ''198.51.100.7''))\<rparr>"

section \<open>The Manager (manager.go)\<close>

record ProxyCheckRequest =
  ProxyList :: "string list"
  ProxyType :: ProxyType
  Endpoint :: string
  Threads :: go_int
  UpstreamProxy :: string
  UpstreamType :: ProxyType

text \<open>
  A channel is an address in the runtime's store; nothing is ever sent on the three
  control channels, so all that matters of one is whether it has been closed.
  \<open>closed\<close> and \<open>nextChan\<close> are that store: the channels closed so far and the next
  address \<open>make\<close> hands out. The two mutexes make each method body one step.
\<close>

type_synonym chan = nat

record Manager =
  running :: bool
  paused :: bool
  results :: "ProxyResult list"
  working :: "string list"
  stats :: Stats
  stopChan :: chan
  pauseChan :: chan
  resumeChan :: chan
  workerCount :: go_int
  pausedWorkerCount :: int32
  closed :: "chan set"
  nextChan :: chan

definition NewManager :: Manager where
  "NewManager = \<lparr>running = False, paused = False, results = [], working = [],
     stats = zero_stats, stopChan = 0, pauseChan = 1, resumeChan = 2, workerCount = 0,
     pausedWorkerCount = 0, closed = {}, nextChan = 3\<rparr>"

definition GetWorkerCount :: "Manager \<Rightarrow> go_int" where
  "GetWorkerCount m = workerCount m"

definition GetPausedWorkerCount :: "Manager \<Rightarrow> go_int" where
  "GetPausedWorkerCount m = scast (pausedWorkerCount m)"

definition IncrementPausedWorkerCount :: "Manager \<Rightarrow> Manager" where
  "IncrementPausedWorkerCount m = m\<lparr>pausedWorkerCount := pausedWorkerCount m + 1\<rparr>"

definition ResetPausedWorkerCount :: "Manager \<Rightarrow> Manager" where
  "ResetPausedWorkerCount m = m\<lparr>pausedWorkerCount := 0\<rparr>"

definition SetWorkerCount :: "go_int \<Rightarrow> Manager \<Rightarrow> Manager" where
  "SetWorkerCount count m = m\<lparr>workerCount := count\<rparr>"

definition IsRunning :: "Manager \<Rightarrow> bool" where
  "IsRunning m = running m"

definition IsPaused :: "Manager \<Rightarrow> bool" where
  "IsPaused m = paused m"

definition GetResults :: "Manager \<Rightarrow> ProxyResult list" where
  "GetResults m = results m"

text \<open>
  \<open>GetStats\<close> builds a fresh struct from seven fields of \<open>m.stats\<close> and then overwrites
  \<open>Pending\<close>; the fields it does not name keep their zero value.
\<close>

definition GetStats :: "Manager \<Rightarrow> Stats" where
  "GetStats m =
     (let copy = zero_stats\<lparr>Total := Total (stats m), Pending := Pending (stats m),
            Live := Live (stats m), Dead := Dead (stats m), Errors := Errors (stats m),
            AverageSpeed := AverageSpeed (stats m), TypeCounts := TypeCounts (stats m)\<rparr>
      in copy\<lparr>Pending := Total copy - Live copy - Dead copy - Errors copy\<rparr>)"

text \<open>
  The control methods. \<open>close\<close> of a channel that is closed already panics: \<open>None\<close>.
  \<open>Stop\<close> looks first and cannot panic.
\<close>

definition Stop :: "bool \<Rightarrow> Manager \<Rightarrow> Manager" where
  "Stop force m =
     (if \<not> running m then m
      else (if stopChan m \<in> closed m
            then m\<lparr>stopChan := nextChan m, nextChan := Suc (nextChan m)\<rparr>
            else m\<lparr>closed := insert (stopChan m) (closed m)\<rparr>)\<lparr>running := False\<rparr>)"

definition Pause :: "Manager \<Rightarrow> (bool \<times> Manager) option" where
  "Pause m =
     (if \<not> running m \<or> paused m then Some (False, m)
      else if pauseChan m \<in> closed m then None
      else Some (True, m\<lparr>paused := True, pausedWorkerCount := 0,
                          closed := insert (pauseChan m) (closed m)\<rparr>))"

definition Resume :: "Manager \<Rightarrow> (bool \<times> Manager) option" where
  "Resume m =
     (if \<not> running m \<or> \<not> paused m then Some (False, m)
      else if resumeChan m \<in> closed m then None
      else Some (True, m\<lparr>paused := False, pauseChan := nextChan m,
                          closed := insert (resumeChan m) (closed m),
                          resumeChan := Suc (nextChan m),
                          nextChan := Suc (Suc (nextChan m))\<rparr>))"

definition ForceStop :: "Manager \<Rightarrow> Manager option" where
  "ForceStop m =
     (if \<not> running m then Some m
      else if stopChan m \<in> closed m then None
      else Some (m\<lparr>closed := insert (stopChan m) (closed m),
                    stopChan := nextChan m, pauseChan := Suc (nextChan m),
                    resumeChan := Suc (Suc (nextChan m)),
                    nextChan := Suc (Suc (Suc (nextChan m))),
                    running := False, paused := False, pausedWorkerCount := 0\<rparr>))"

definition ForcePause :: "Manager \<Rightarrow> (bool \<times> Manager) option" where
  "ForcePause m =
     (if \<not> running m \<or> paused m then Some (False, m)
      else if pauseChan m \<in> closed m then None
      else Some (True, m\<lparr>paused := True, closed := insert (pauseChan m) (closed m),
                          pauseChan := nextChan m, nextChan := Suc (nextChan m),
                          pausedWorkerCount := ucast (workerCount m)\<rparr>))"

definition ClearResults :: "Manager \<Rightarrow> Manager" where
  "ClearResults m =
     (if running m \<and> \<not> paused m then m
      else m\<lparr>results := [], working := [], stats := zero_stats\<rparr>)"

subsection \<open>One job of the worker loop\<close>

text \<open>Lines 193 to 205 of \<open>Start\<close>: the kind a job is probed as.\<close>

definition resolve_type :: "network \<Rightarrow> ProxyCheckRequest \<Rightarrow> string \<Rightarrow> ProxyType" where
  "resolve_type nw req proxy =
     (if ProxyType req = Auto
      then (case snd (DetectProxyType nw proxy) of
              Inl err \<Rightarrow> HTTP
            | Inr detectedType \<Rightarrow> detectedType)
      else ProxyType req)"

text \<open>The \<open>switch proxyType\<close> of lines 218 to 229.\<close>

definition run_check :: "network \<Rightarrow> ProxyCheckRequest \<Rightarrow> ProxyType \<Rightarrow> string \<Rightarrow> probe_result" where
  "run_check nw req proxyType proxy =
     (if proxyType = HTTP
        then CheckHTTP nw proxy (Endpoint req) (UpstreamProxy req) (UpstreamType req)
      else if proxyType = HTTPS
        then CheckHTTPS nw proxy (Endpoint req) (UpstreamProxy req) (UpstreamType req)
      else if proxyType = SOCKS4
        then CheckSOCKS4 nw proxy (Endpoint req) (UpstreamProxy req) (UpstreamType req)
      else if proxyType = SOCKS5
        then CheckSOCKS5 nw proxy (Endpoint req) (UpstreamProxy req) (UpstreamType req)
      else ([], Inl (''unsupported proxy type: '' @ proxyType)))"

text \<open>
  Lines 193 to 240: the result a worker builds for one endpoint, on a network \<open>nw\<close> and
  with \<open>elapsed\<close> the milliseconds \<open>time.Since(start)\<close> reads.
\<close>

definition check_proxy :: "network \<Rightarrow> int64 \<Rightarrow> ProxyCheckRequest \<Rightarrow> string \<Rightarrow> ProxyResult" where
  "check_proxy nw elapsed req proxy =
     (let proxyType = resolve_type nw req proxy;
          result = zero_result\<lparr>Proxy := proxy, Type := proxyType, Latency := elapsed\<rparr>
      in case snd (run_check nw req proxyType proxy) of
           Inl err \<Rightarrow> result\<lparr>Status := ''DEAD'', Error := err\<rparr>
         | Inr outgoingIP \<Rightarrow> result\<lparr>Status := ''LIVE'', OutgoingIP := outgoingIP\<rparr>)"

text \<open>
  Lines 250 to 272, the section under \<open>m.mutex\<close>: \<open>totalLatency\<close> and \<open>liveCount\<close> are
  the closure's variables as they stand when the section runs.
\<close>

definition append_result :: "ProxyResult \<Rightarrow> int64 \<Rightarrow> go_int \<Rightarrow> Manager \<Rightarrow> Manager" where
  "append_result result totalLatency liveCount m =
     (let s = stats m;
          m1 = m\<lparr>results := results m @ [result]\<rparr>;
          m2 = (if Status result = ''LIVE''
                then m1\<lparr>stats := s\<lparr>Live := Live s + 1\<rparr>, working := working m @ [Proxy result]\<rparr>
                else if Status result = ''DEAD''
                then m1\<lparr>stats := s\<lparr>Dead := Dead s + 1\<rparr>\<rparr>
                else m1\<lparr>stats := s\<lparr>Errors := Errors s + 1\<rparr>\<rparr>);
          m3 = m2\<lparr>stats := (stats m2)\<lparr>TypeCounts := map_incr (TypeCounts (stats m2)) (Type result)\<rparr>\<rparr>
      in if 0 <s liveCount
         then m3\<lparr>stats := (stats m3)\<lparr>AverageSpeed := go_div totalLatency liveCount\<rparr>\<rparr>
         else m3)"

subsection \<open>A run: the goroutines of one \<open>Start\<close>\<close>

text \<open>
  Where a worker stands. \<open>W_range\<close>: at \<open>for proxy := range jobs\<close>. \<open>W_select p\<close>: it has
  received \<open>p\<close> and is at the outer \<open>select\<close>. \<open>W_paused p\<close>: it took the pause case and
  is about to enter the inner \<open>select\<close>. \<open>W_waiting p rc sc\<close>: it is blocked there, on the
  resume and stop channels it read when it entered. \<open>W_checking p\<close>: it took the
  default case and the probe is in flight. \<open>W_commit r\<close>: the probe has returned, the
  latency totals are updated, and it is about to lock \<open>m.mutex\<close>. \<open>W_done\<close>: returned.
\<close>

datatype wstate =
    W_range
  | W_select string
  | W_paused string
  | W_waiting string chan chan
  | W_checking string
  | W_commit ProxyResult
  | W_done

record checker_run =
  mgr :: Manager
  req :: ProxyCheckRequest
  jobs :: "string list"
  totalLatency :: int64
  liveCount :: go_int
  workers :: "wstate list"
  watcher_done :: bool

text \<open>
  \<open>Start\<close> up to the point where its goroutines exist. \<open>wg.Add\<close> panics on a negative
  count. The callbacks \<open>logCb\<close> and \<open>updateCb\<close> belong to the caller and are left out.
\<close>

definition Start :: "ProxyCheckRequest \<Rightarrow> Manager \<Rightarrow> string + checker_run" where
  "Start r m =
     (if running m then Inl ''Check already in progress''
      else if Threads r <s 0 then Inl ''sync: negative WaitGroup counter''
      else Inr \<lparr>mgr = m\<lparr>running := True, paused := False, results := [], working := [],
                   stats := zero_stats\<lparr>Total := of_nat (length (ProxyList r)),
                                        Pending := of_nat (length (ProxyList r)),
                                        ThreadCount := Threads r\<rparr>,
                   workerCount := Threads r,
                   stopChan := nextChan m, pauseChan := Suc (nextChan m),
                   resumeChan := Suc (Suc (nextChan m)),
                   nextChan := Suc (Suc (Suc (nextChan m))),
                   pausedWorkerCount := 0\<rparr>,
                req = r, jobs = ProxyList r, totalLatency = 0, liveCount = 0,
                workers = replicate (nat (sint (Threads r))) W_range,
                watcher_done = False\<rparr>)"

text \<open>A request to evaluate the definitions on, against the default endpoint.\<close>

definition example_request :: "string list \<Rightarrow> ProxyType \<Rightarrow> go_int \<Rightarrow> ProxyCheckRequest" where
  "example_request proxies kind threads =
     \<lparr>ProxyList = proxies, ProxyType = kind, Endpoint = ''https://api.ipify.org'',
      Threads = threads, UpstreamProxy = [], UpstreamType = []\<rparr>"

text \<open>
  The steps of a run. A worker step names the worker; where Go chooses (which ready
  case a \<open>select\<close> takes, what the network answers, how long the probe took) the step
  names the choice. \<open>exec\<close> is \<open>None\<close> where the step cannot be taken or panics.
  The probe and the update of the latency totals that follows it are one step, since
  the probe reads and writes nothing the other goroutines share. A run is the closure
  of one \<open>Start\<close>: the caller's steps on it are the control methods. A second
  \<open>Start\<close> makes another closure on the same Manager; the program of several
  closures follows the steps of one.
\<close>

datatype select_case = CaseStop | CasePause | CaseDefault

datatype wake_case = CaseResume | CaseStopped

datatype action =
    Range nat
  | Select nat select_case
  | Wait nat
  | Wake nat wake_case
  | Check nat network int64
  | Append nat
  | Watcher
  | CallStop bool
  | CallPause
  | CallResume
  | CallForceStop
  | CallForcePause
  | CallClearResults

definition worker_at :: "checker_run \<Rightarrow> nat \<Rightarrow> wstate option" where
  "worker_at s i = (if i < length (workers s) then Some (workers s ! i) else None)"

definition set_worker :: "nat \<Rightarrow> wstate \<Rightarrow> checker_run \<Rightarrow> checker_run" where
  "set_worker i w s = s\<lparr>workers := (workers s)[i := w]\<rparr>"

definition do_range :: "nat \<Rightarrow> checker_run \<Rightarrow> checker_run option" where
  "do_range i s =
     (case worker_at s i of
        Some W_range \<Rightarrow>
          (case jobs s of
             [] \<Rightarrow> Some (set_worker i W_done s)
           | proxy # rest \<Rightarrow> Some (set_worker i (W_select proxy) (s\<lparr>jobs := rest\<rparr>)))
      | _ \<Rightarrow> None)"

definition do_select :: "nat \<Rightarrow> select_case \<Rightarrow> checker_run \<Rightarrow> checker_run option" where
  "do_select i c s =
     (case worker_at s i of
        Some (W_select proxy) \<Rightarrow>
          (let stop_ready = stopChan (mgr s) \<in> closed (mgr s);
               pause_ready = pauseChan (mgr s) \<in> closed (mgr s)
           in case c of
                CaseStop \<Rightarrow> if stop_ready then Some (set_worker i W_done s) else None
              | CasePause \<Rightarrow> if pause_ready then Some (set_worker i (W_paused proxy) s) else None
              | CaseDefault \<Rightarrow>
                  if \<not> stop_ready \<and> \<not> pause_ready
                  then Some (set_worker i (W_checking proxy) s) else None)
      | _ \<Rightarrow> None)"

definition do_wait :: "nat \<Rightarrow> checker_run \<Rightarrow> checker_run option" where
  "do_wait i s =
     (case worker_at s i of
        Some (W_paused proxy) \<Rightarrow>
          Some (set_worker i (W_waiting proxy (resumeChan (mgr s)) (stopChan (mgr s))) s)
      | _ \<Rightarrow> None)"

definition do_wake :: "nat \<Rightarrow> wake_case \<Rightarrow> checker_run \<Rightarrow> checker_run option" where
  "do_wake i c s =
     (case worker_at s i of
        Some (W_waiting proxy rc sc) \<Rightarrow>
          (case c of
             CaseResume \<Rightarrow> if rc \<in> closed (mgr s) then Some (set_worker i W_range s) else None
           | CaseStopped \<Rightarrow> if sc \<in> closed (mgr s) then Some (set_worker i W_done s) else None)
      | _ \<Rightarrow> None)"

definition do_check :: "nat \<Rightarrow> network \<Rightarrow> int64 \<Rightarrow> checker_run \<Rightarrow> checker_run option" where
  "do_check i nw elapsed s =
     (case worker_at s i of
        Some (W_checking proxy) \<Rightarrow>
          (let result = check_proxy nw elapsed (req s) proxy;
               s1 = (if Status result = ''LIVE''
                     then s\<lparr>totalLatency := totalLatency s + Latency result,
                            liveCount := liveCount s + 1\<rparr>
                     else s)
           in Some (set_worker i (W_commit result) s1))
      | _ \<Rightarrow> None)"

definition do_append :: "nat \<Rightarrow> checker_run \<Rightarrow> checker_run option" where
  "do_append i s =
     (case worker_at s i of
        Some (W_commit result) \<Rightarrow>
          Some (set_worker i W_range
                  (s\<lparr>mgr := append_result result (totalLatency s) (liveCount s) (mgr s)\<rparr>))
      | _ \<Rightarrow> None)"

text \<open>
  Every worker has returned: what \<open>wg.Wait()\<close> waits for. The goroutine behind it
  then clears the two flags.
\<close>

definition completed :: "checker_run \<Rightarrow> bool" where
  "completed s \<longleftrightarrow> list_all (\<lambda>w. w = W_done) (workers s)"

definition do_watcher :: "checker_run \<Rightarrow> checker_run option" where
  "do_watcher s =
     (if \<not> watcher_done s \<and> completed s
      then Some (s\<lparr>mgr := (mgr s)\<lparr>running := False, paused := False\<rparr>, watcher_done := True\<rparr>)
      else None)"

fun exec :: "action \<Rightarrow> checker_run \<Rightarrow> checker_run option" where
  "exec (Range i) s = do_range i s"
| "exec (Select i c) s = do_select i c s"
| "exec (Wait i) s = do_wait i s"
| "exec (Wake i c) s = do_wake i c s"
| "exec (Check i nw elapsed) s = do_check i nw elapsed s"
| "exec (Append i) s = do_append i s"
| "exec Watcher s = do_watcher s"
| "exec (CallStop force) s = Some (s\<lparr>mgr := Stop force (mgr s)\<rparr>)"
| "exec CallPause s = map_option (\<lambda>(ok, m). s\<lparr>mgr := m\<rparr>) (Pause (mgr s))"
| "exec CallResume s = map_option (\<lambda>(ok, m). s\<lparr>mgr := m\<rparr>) (Resume (mgr s))"
| "exec CallForceStop s = map_option (\<lambda>m. s\<lparr>mgr := m\<rparr>) (ForceStop (mgr s))"
| "exec CallForcePause s = map_option (\<lambda>(ok, m). s\<lparr>mgr := m\<rparr>) (ForcePause (mgr s))"
| "exec CallClearResults s = Some (s\<lparr>mgr := ClearResults (mgr s)\<rparr>)"

fun execs :: "action list \<Rightarrow> checker_run \<Rightarrow> checker_run option" where
  "execs [] s = Some s"
| "execs (a # as) s = (case exec a s of None \<Rightarrow> None | Some s' \<Rightarrow> execs as s')"

text \<open>The steps the goroutines of \<open>Start\<close> take, as against the caller's calls.\<close>

fun goroutine_step :: "action \<Rightarrow> bool" where
  "goroutine_step (Range i) = True"
| "goroutine_step (Select i c) = True"
| "goroutine_step (Wait i) = True"
| "goroutine_step (Wake i c) = True"
| "goroutine_step (Check i nw elapsed) = True"
| "goroutine_step (Append i) = True"
| "goroutine_step Watcher = True"
| "goroutine_step a = False"

subsection \<open>The program: one Manager and the closures of every \<open>Start\<close>\<close>

text \<open>
  \<open>Stop\<close> clears \<open>running\<close> before the workers of the run have returned, so \<open>Start\<close> can
  be called again while they are alive: it resets results, statistics and channels,
  and the workers of the stopped closure go on appending to the Manager they share
  with the new ones. The program is therefore the Manager together with the closures
  of every \<open>Start\<close> so far. A closure keeps its own queue, latency totals and workers;
  its \<open>mgr\<close> field is the Manager as its own last step left it, and each step of a
  closure starts from the shared Manager and hands the Manager back.
\<close>

record program =
  shared :: Manager
  closures :: "checker_run list"

definition new_program :: program where
  "new_program = \<lparr>shared = NewManager, closures = []\<rparr>"

text \<open>The control methods as the caller's steps on the shared Manager.\<close>

fun call_method :: "action \<Rightarrow> Manager \<Rightarrow> Manager option" where
  "call_method (CallStop force) m = Some (Stop force m)"
| "call_method CallPause m = map_option snd (Pause m)"
| "call_method CallResume m = map_option snd (Resume m)"
| "call_method CallForceStop m = ForceStop m"
| "call_method CallForcePause m = map_option snd (ForcePause m)"
| "call_method CallClearResults m = Some (ClearResults m)"
| "call_method a m = None"

text \<open>
  An event of the program: a goroutine of the \<open>k\<close>-th closure takes a step, the caller
  calls a control method, or the caller calls \<open>Start\<close>. \<open>Start\<close> on a running Manager
  logs and returns; otherwise it adds a closure.
\<close>

datatype event =
    Go nat action
  | Call action
  | StartRun ProxyCheckRequest

definition go_step :: "nat \<Rightarrow> action \<Rightarrow> program \<Rightarrow> program option" where
  "go_step k a g =
     (if k < length (closures g) \<and> goroutine_step a
      then (case exec a ((closures g ! k)\<lparr>mgr := shared g\<rparr>) of
              None \<Rightarrow> None
            | Some c \<Rightarrow> Some \<lparr>shared = mgr c, closures = (closures g)[k := c]\<rparr>)
      else None)"

definition start_run :: "ProxyCheckRequest \<Rightarrow> program \<Rightarrow> program option" where
  "start_run rq g =
     (if running (shared g) then Some g
      else (case Start rq (shared g) of
              Inl e \<Rightarrow> None
            | Inr c \<Rightarrow> Some \<lparr>shared = mgr c, closures = closures g @ [c]\<rparr>))"

fun program_step :: "event \<Rightarrow> program \<Rightarrow> program option" where
  "program_step (Go k a) g = go_step k a g"
| "program_step (Call a) g =
     (case call_method a (shared g) of None \<Rightarrow> None | Some m \<Rightarrow> Some (g\<lparr>shared := m\<rparr>))"
| "program_step (StartRun rq) g = start_run rq g"

fun program_steps :: "event list \<Rightarrow> program \<Rightarrow> program option" where
  "program_steps [] g = Some g"
| "program_steps (e # es) g =
     (case program_step e g of None \<Rightarrow> None | Some g' \<Rightarrow> program_steps es g')"

text \<open>A closure all of whose goroutines have returned: the workers and the watcher.\<close>

definition finished :: "checker_run \<Rightarrow> bool" where
  "finished c \<longleftrightarrow> completed c \<and> watcher_done c"





section \<open>Statistics as a function of the result collection\<close>

text \<open>
  The spec's side of the comparison with the worker loop's running statistics. It
  follows the spec's words (section 3, RunStatistics, and section 4.4), not the code:
  each terminal result counts once under its outcome and once under its kind and takes
  one from pending; the average latency is that of the live results, the running total
  divided by the running count; the success rate is
  \<open>live / (live + dead + errors) * 100\<close>, guarded against division by zero. A result is
  read the way the worker loop writes it: \<open>LIVE\<close> is live, \<open>DEAD\<close> is dead, any other
  status an error.
\<close>

definition live_latencies :: "ProxyResult list \<Rightarrow> int64 list" where
  "live_latencies rs = map Latency (filter (\<lambda>r. Status r = ''LIVE'') rs)"

definition kind_counts :: "ProxyResult list \<Rightarrow> (ProxyType \<rightharpoonup> go_int)" where
  "kind_counts rs = fold (\<lambda>r tc. map_incr tc (Type r)) rs Map.empty"

definition recomputed_from_results :: "go_int \<Rightarrow> ProxyResult list \<Rightarrow> Stats" where
  "recomputed_from_results tot rs =
     (let live = length (filter (\<lambda>r. Status r = ''LIVE'') rs);
          dead = length (filter (\<lambda>r. Status r = ''DEAD'') rs);
          errors = length (filter (\<lambda>r. Status r \<noteq> ''LIVE'' \<and> Status r \<noteq> ''DEAD'') rs)
      in \<lparr>Total = tot, Live = of_nat live, Dead = of_nat dead, Errors = of_nat errors,
          Pending = tot - of_nat (length rs), Checking = 0,
          TypeCounts = kind_counts rs,
          SuccessRate = (if live + dead + errors = 0 then 0
                         else of_nat live / of_nat (live + dead + errors) * 100),
          AverageSpeed = mean_of (live_latencies rs), ThreadCount = 0\<rparr>)"

section \<open>Invariants of a run\<close>

text \<open>
  Bookkeeping over the workers: whether a worker holds an endpoint that is still on
  its way to the result collection.
\<close>

fun in_flight :: "wstate \<Rightarrow> nat" where
  "in_flight (W_select p) = 1"
| "in_flight (W_checking p) = 1"
| "in_flight (W_commit r) = 1"
| "in_flight w = 0"

definition counters_match :: "Manager \<Rightarrow> bool" where
  "counters_match m \<longleftrightarrow>
     Live (stats m) = of_nat (length (filter (\<lambda>r. Status r = ''LIVE'') (results m))) \<and>
     Dead (stats m) = of_nat (length (filter (\<lambda>r. Status r = ''DEAD'') (results m))) \<and>
     Errors (stats m) =
       of_nat (length (filter (\<lambda>r. Status r \<noteq> ''LIVE'' \<and> Status r \<noteq> ''DEAD'') (results m))) \<and>
     TypeCounts (stats m) = kind_counts (results m)"

definition load :: "checker_run \<Rightarrow> nat" where
  "load s = length (results (mgr s)) + sum_list (map in_flight (workers s)) + length (jobs s)"




section \<open>Properties of the statistics tracker\<close>

lemmas type_defs = Auto_def HTTP_def HTTPS_def SOCKS4_def SOCKS5_def UNKNOWN_def
lemmas status_defs = StatusPending_def StatusChecking_def StatusLive_def StatusDead_def
  StatusError_def



lemma recalc_success_counters [simp]:
  "Total (recalc_success s) = Total s" "Live (recalc_success s) = Live s"
  "Dead (recalc_success s) = Dead s" "Errors (recalc_success s) = Errors s"
  "Pending (recalc_success s) = Pending s" "Checking (recalc_success s) = Checking s"
  "AverageSpeed (recalc_success s) = AverageSpeed s"
  "TypeCounts (recalc_success s) = TypeCounts s"
  by (simp_all add: recalc_success_def Let_def)

lemma counters_balanced_recalc [simp]:
  "counters_balanced (recalc_success s) = counters_balanced s"
  by (simp add: counters_balanced_def)

lemma update_type_fields [simp]:
  "Total (st_stats (update_type r st)) = Total (st_stats st)"
  "Live (st_stats (update_type r st)) = Live (st_stats st)"
  "Dead (st_stats (update_type r st)) = Dead (st_stats st)"
  "Errors (st_stats (update_type r st)) = Errors (st_stats st)"
  "Pending (st_stats (update_type r st)) = Pending (st_stats st)"
  "Checking (st_stats (update_type r st)) = Checking (st_stats st)"
  "AverageSpeed (st_stats (update_type r st)) = AverageSpeed (st_stats st)"
  "totalTime (update_type r st) = totalTime st"
  "totalCount (update_type r st) = totalCount st"
  by (simp_all add: update_type_def)

lemma update_status_balanced:
  "update_status r st = Some st' \<Longrightarrow> counters_balanced (st_stats st) \<Longrightarrow>
   counters_balanced (st_stats st')"
  by (auto simp: update_status_def counters_balanced_def Let_def status_defs algebra_simps split: if_splits)

lemma update_status_returns:
  "totalCount st \<noteq> - 1 \<Longrightarrow> update_status r st \<noteq> None"
  by (auto simp: update_status_def Let_def status_defs eq_neg_iff_add_eq_0)

lemma UpdateWithResult_balanced:
  "UpdateWithResult r st = Some st' \<Longrightarrow> counters_balanced (st_stats st) \<Longrightarrow>
   counters_balanced (st_stats st')"
  unfolding UpdateWithResult_def
  by (auto split: option.splits dest!: update_status_balanced simp: counters_balanced_def)

lemma UpdateWithResult_returns:
  "totalCount st \<noteq> - 1 \<Longrightarrow> UpdateWithResult r st \<noteq> None"
  unfolding UpdateWithResult_def
  using update_status_returns [of "update_type r st" r]
  by (auto split: option.splits)


lemma update_status_uncounted:
  "\<not> counted r \<Longrightarrow> \<exists>st'. update_status r st = Some st' \<and> totalTime st' = totalTime st \<and>
     totalCount st' = totalCount st \<and> AverageSpeed (st_stats st') = AverageSpeed (st_stats st)"
  by (auto simp: update_status_def counted_def Let_def)

lemma update_status_counted:
  "counted r \<Longrightarrow> totalCount st \<noteq> - 1 \<Longrightarrow>
   \<exists>st'. update_status r st = Some st' \<and> totalTime st' = totalTime st + Latency r \<and>
     totalCount st' = totalCount st + 1 \<and>
     AverageSpeed (st_stats st') = go_div (totalTime st + Latency r) (totalCount st + 1)"
  by (auto simp: update_status_def counted_def Let_def eq_neg_iff_add_eq_0)

lemma update_status_counted_panics:
  "counted r \<Longrightarrow> totalCount st = - 1 \<Longrightarrow> update_status r st = None"
  by (auto simp: update_status_def counted_def Let_def)

lemma of_nat_Suc_neq_minus1:
  "n < 2 ^ 64 - 1 \<Longrightarrow> (of_nat n :: 64 word) \<noteq> - 1"
proof
  assume n: "n < 2 ^ 64 - 1" and e: "(of_nat n :: 64 word) = - 1"
  from e have "(of_nat (Suc n) :: 64 word) = 0" by simp
  moreover from n have "Suc n < 2 ^ LENGTH(64)" by simp
  ultimately show False using of_nat_neq_0 [of "Suc n", where 'a = 64] by simp
qed

lemma apply_op_mean_inv:
  assumes "mean_inv c st" and "length c < 2 ^ 64 - 1"
  shows "\<exists>st'. apply_op x st = Some st' \<and> mean_inv (counted_latencies c [x]) st'"
proof (cases x)
  case (OpReset n)
  then show ?thesis by (simp add: Reset_def mean_inv_def mean_of_def zero_stats_def)
next
  case OpMarkCheckingAsDead
  with assms show ?thesis by (simp add: MarkCheckingAsDead_def mean_inv_def Let_def)
next
  case (OpUpdate r)
  show ?thesis
  proof (cases "counted r")
    case False
    from update_status_uncounted [OF False, of "update_type r st"]
    obtain st1 where "update_status r (update_type r st) = Some st1"
      "totalTime st1 = totalTime st" "totalCount st1 = totalCount st"
      "AverageSpeed (st_stats st1) = AverageSpeed (st_stats st)" by auto
    with assms False OpUpdate show ?thesis
      by (simp add: UpdateWithResult_def mean_inv_def)
  next
    case True
    have "totalCount (update_type r st) \<noteq> - 1"
      using assms of_nat_Suc_neq_minus1 [of "length c"] by (simp add: mean_inv_def)
    from update_status_counted [OF True this]
    obtain st1 where "update_status r (update_type r st) = Some st1"
      "totalTime st1 = totalTime st + Latency r" "totalCount st1 = totalCount st + 1"
      "AverageSpeed (st_stats st1) = go_div (totalTime st + Latency r) (totalCount st + 1)"
      by auto
    with assms True OpUpdate show ?thesis
      by (simp add: UpdateWithResult_def mean_inv_def mean_of_def add.commute)
  qed
qed

lemma counted_latencies_length:
  "length (counted_latencies c xs) \<le> length c + length xs"
  by (induction c xs rule: counted_latencies.induct) auto

lemma counted_latencies_step:
  "counted_latencies c (x # xs) = counted_latencies (counted_latencies c [x]) xs"
  by (cases x) simp_all

lemma apply_ops_mean_inv:
  "mean_inv c st \<Longrightarrow> length c + length xs < 2 ^ 64 \<Longrightarrow>
   \<exists>st'. apply_ops xs st = Some st' \<and> mean_inv (counted_latencies c xs) st'"
proof (induction xs arbitrary: c st)
  case Nil
  then show ?case by simp
next
  case (Cons x xs)
  from Cons.prems have "length c < 2 ^ 64 - 1" by simp
  from apply_op_mean_inv [OF Cons.prems(1) this, of x]
  obtain st1 where s1: "apply_op x st = Some st1" "mean_inv (counted_latencies c [x]) st1"
    by auto
  have "length (counted_latencies c [x]) \<le> length c + 1"
    using counted_latencies_length [of c "[x]"] by simp
  with Cons.prems have "length (counted_latencies c [x]) + length xs < 2 ^ 64" by simp
  from Cons.IH [OF s1(2) this] s1(1) show ?case
    by (simp add: counted_latencies_step [of c x xs])
qed


lemma GetStats_balanced: "counters_balanced (GetStats m)"
  by (simp add: GetStats_def counters_balanced_def zero_stats_def Let_def)

lemma Reset_balanced: "counters_balanced (st_stats (Reset n st))"
  by (simp add: Reset_def counters_balanced_def zero_stats_def)

lemma MarkCheckingAsDead_balanced:
  "counters_balanced (st_stats st) \<Longrightarrow> counters_balanced (st_stats (MarkCheckingAsDead st))"
  by (simp add: MarkCheckingAsDead_def Let_def) (simp add: counters_balanced_def algebra_simps)

lemma StatsTracker_GetStats_balanced:
  "counters_balanced (StatsTracker_GetStats st) = counters_balanced (st_stats st)"
  by (simp add: StatsTracker_GetStats_def counters_balanced_def)

text \<open>
  C1. The counter equation \<open>Pending + Checking + Live + Dead + Errors = Total\<close> holds of
  every copy \<open>Manager.GetStats\<close> returns, whatever the state of the Manager, and of the
  tracker after \<open>Reset\<close>; \<open>UpdateWithResult\<close> (for any status string and any result) and
  \<open>MarkCheckingAsDead\<close> keep it, and so does the copy \<open>StatsTracker.GetStats\<close> hands out.
  \<open>UpdateWithResult\<close> returns unless its divisor wraps to zero, which takes
  \<open>totalCount = -1\<close>.
\<close>

theorem counter_equation_holds:
  "counters_balanced (GetStats m) \<and>
   counters_balanced (st_stats (Reset n st0)) \<and>
   (counters_balanced (st_stats st) \<longrightarrow>
      (\<forall>st'. UpdateWithResult r st = Some st' \<longrightarrow> counters_balanced (st_stats st')) \<and>
      (totalCount st \<noteq> - 1 \<longrightarrow> (\<exists>st'. UpdateWithResult r st = Some st')) \<and>
      counters_balanced (st_stats (MarkCheckingAsDead st)) \<and>
      counters_balanced (StatsTracker_GetStats st))"
  using GetStats_balanced Reset_balanced UpdateWithResult_balanced
    UpdateWithResult_returns [of st r] MarkCheckingAsDead_balanced
    StatsTracker_GetStats_balanced by blast

theorem counter_equation_holds_witness:
  "counters_balanced (st_stats (Reset 3 NewStatsTracker)) \<and>
   (\<exists>st'. UpdateWithResult (zero_result\<lparr>Status := StatusChecking\<rparr>) (Reset 3 NewStatsTracker) = Some st' \<and>
      counters_balanced (st_stats st') \<and> Checking (st_stats st') = 1 \<and>
      Pending (st_stats st') = 2 \<and>
      counters_balanced (st_stats (MarkCheckingAsDead st')) \<and>
      Dead (st_stats (MarkCheckingAsDead st')) = 1)"
proof -
  let ?st = "Reset 3 NewStatsTracker"
  let ?r = "zero_result\<lparr>Status := StatusChecking\<rparr>"
  have b: "counters_balanced (st_stats ?st)"
    using counter_equation_holds [of NewManager 3 NewStatsTracker ?st ?r] by simp
  have c: "totalCount ?st \<noteq> - 1" by (simp add: Reset_def)
  from counter_equation_holds [of NewManager 3 NewStatsTracker ?st ?r] b c
  obtain st' where u: "UpdateWithResult ?r ?st = Some st'" by blast
  with counter_equation_holds [of NewManager 3 NewStatsTracker ?st ?r] b
  have b': "counters_balanced (st_stats st')" by blast
  have v: "Checking (st_stats st') = 1 \<and> Pending (st_stats st') = 2"
    using u by (auto simp: UpdateWithResult_def update_status_def update_type_def Reset_def
        zero_stats_def zero_result_def status_defs Let_def)
  have d: "Dead (st_stats (MarkCheckingAsDead st')) = 1"
    using u by (auto simp: UpdateWithResult_def update_status_def update_type_def Reset_def
        zero_stats_def zero_result_def status_defs Let_def MarkCheckingAsDead_def)
  have "counters_balanced (st_stats (MarkCheckingAsDead st'))"
    using counter_equation_holds [of NewManager 0 st' st' ?r] b' by blast
  with b u b' v d show ?thesis by blast
qed

lemma UpdateWithResult_zero_latency:
  assumes "Status r = StatusLive" and "\<not> 0 <s Latency r"
  shows "\<exists>st'. UpdateWithResult r st = Some st' \<and>
           Live (st_stats st') = Live (st_stats st) + 1 \<and>
           AverageSpeed (st_stats st') = AverageSpeed (st_stats st) \<and>
           totalTime st' = totalTime st \<and> totalCount st' = totalCount st"
  using assms by (simp add: UpdateWithResult_def update_status_def Let_def)

lemma UpdateWithResult_positive_latency:
  assumes "Status r = StatusLive" and "0 <s Latency r" and "totalCount st \<noteq> - 1"
  shows "\<exists>st'. UpdateWithResult r st = Some st' \<and>
           Live (st_stats st') = Live (st_stats st) + 1 \<and>
           AverageSpeed (st_stats st') = go_div (totalTime st + Latency r) (totalCount st + 1) \<and>
           totalTime st' = totalTime st + Latency r \<and> totalCount st' = totalCount st + 1"
  using assms by (simp add: UpdateWithResult_def update_status_def Let_def eq_neg_iff_add_eq_0)

lemma mean_inv_new: "mean_inv [] NewStatsTracker"
  by (simp add: mean_inv_def NewStatsTracker_def zero_stats_def mean_of_def)

lemma go_div_truncates:
  "go_div a b = word_of_int (sgn (sint a) * sgn (sint b) * (\<bar>sint a\<bar> div \<bar>sint b\<bar>))"
  by (simp add: go_div_def signed_divide_int_def)

text \<open>
  C10. In \<open>UpdateWithResult\<close> a live result whose latency is not strictly positive
  increments \<open>Live\<close> and leaves \<open>AverageSpeed\<close> and the two running totals as they were;
  one whose latency is positive is added to the totals and the mean is rewritten as
  their quotient. After any history of calls on a new tracker, \<open>AverageSpeed\<close> is the
  quotient, truncated towards zero, of the sum of the counted latencies by their number
  (and \<open>0\<close>, the value \<open>Reset\<close> leaves, while nothing has been counted). The sum is the
  \<open>int64\<close> sum, which wraps.
\<close>

theorem average_speed_counts_positive_latencies:
  "(Status r = StatusLive \<and> \<not> 0 <s Latency r \<longrightarrow>
      (\<exists>st'. UpdateWithResult r st = Some st' \<and>
         Live (st_stats st') = Live (st_stats st) + 1 \<and>
         AverageSpeed (st_stats st') = AverageSpeed (st_stats st) \<and>
         totalTime st' = totalTime st \<and> totalCount st' = totalCount st)) \<and>
   (Status r = StatusLive \<and> 0 <s Latency r \<and> totalCount st \<noteq> - 1 \<longrightarrow>
      (\<exists>st'. UpdateWithResult r st = Some st' \<and>
         Live (st_stats st') = Live (st_stats st) + 1 \<and>
         AverageSpeed (st_stats st') = go_div (totalTime st + Latency r) (totalCount st + 1) \<and>
         totalTime st' = totalTime st + Latency r \<and> totalCount st' = totalCount st + 1)) \<and>
   (length xs < 2 ^ 64 \<longrightarrow>
      (\<exists>st'. apply_ops xs NewStatsTracker = Some st' \<and>
         AverageSpeed (st_stats st') = mean_of (counted_latencies [] xs) \<and>
         totalTime st' = sum_list (counted_latencies [] xs) \<and>
         totalCount st' = of_nat (length (counted_latencies [] xs)))) \<and>
   mean_of c = (if c = [] then 0
                else word_of_int (sgn (sint (sum_list c)) * sgn (sint (of_nat (length c) :: int64)) *
                       (\<bar>sint (sum_list c)\<bar> div \<bar>sint (of_nat (length c) :: int64)\<bar>)))"
proof -
  have "length xs < 2 ^ 64 \<Longrightarrow> \<exists>st'. apply_ops xs NewStatsTracker = Some st' \<and>
          mean_inv (counted_latencies [] xs) st'"
    using apply_ops_mean_inv [OF mean_inv_new, of xs] by simp
  then show ?thesis
    using UpdateWithResult_zero_latency [of r st] UpdateWithResult_positive_latency [of r st]
    by (auto simp: mean_inv_def mean_of_def go_div_truncates)
qed

theorem average_speed_counts_positive_latencies_witness:
  "(\<exists>st'. UpdateWithResult (zero_result\<lparr>Status := StatusLive\<rparr>) NewStatsTracker = Some st' \<and>
      Live (st_stats st') = 1 \<and> AverageSpeed (st_stats st') = 0 \<and> totalCount st' = 0) \<and>
   (\<exists>st'. apply_ops [OpReset 3,
                      OpUpdate (zero_result\<lparr>Status := StatusLive, Latency := 7\<rparr>),
                      OpUpdate (zero_result\<lparr>Status := StatusLive, Latency := 0\<rparr>),
                      OpUpdate (zero_result\<lparr>Status := StatusLive, Latency := 4\<rparr>)]
             NewStatsTracker = Some st' \<and>
      AverageSpeed (st_stats st') = 5 \<and> totalTime st' = 11 \<and> totalCount st' = 2)"
proof -
  let ?r = "zero_result\<lparr>Status := StatusLive\<rparr>"
  let ?xs = "[OpReset 3,
              OpUpdate (zero_result\<lparr>Status := StatusLive, Latency := 7\<rparr>),
              OpUpdate (zero_result\<lparr>Status := StatusLive, Latency := 0\<rparr>),
              OpUpdate (zero_result\<lparr>Status := StatusLive, Latency := 4\<rparr>)]"
  have c: "counted_latencies [] ?xs = [7, 4]"
    by (simp add: counted_def zero_result_def status_defs word_sless_alt)
  have m: "mean_of [7, 4 :: int64] = 5"
    by (simp add: mean_of_def go_div_def signed_divide_int_def)
  have h: "Status ?r = StatusLive \<and> \<not> 0 <s Latency ?r"
    by (simp add: zero_result_def word_sless_alt)
  have l: "length ?xs < 2 ^ 64" by simp
  note T = average_speed_counts_positive_latencies [of ?r NewStatsTracker ?xs "[]"]
  from T h obtain st1 where s1: "UpdateWithResult ?r NewStatsTracker = Some st1"
    "Live (st_stats st1) = Live (st_stats NewStatsTracker) + 1"
    "AverageSpeed (st_stats st1) = AverageSpeed (st_stats NewStatsTracker)"
    "totalCount st1 = totalCount NewStatsTracker" by blast
  from T l obtain st2 where s2: "apply_ops ?xs NewStatsTracker = Some st2"
    "AverageSpeed (st_stats st2) = mean_of (counted_latencies [] ?xs)"
    "totalTime st2 = sum_list (counted_latencies [] ?xs)"
    "totalCount st2 = of_nat (length (counted_latencies [] ?xs))" by blast
  have a: "Live (st_stats st1) = 1 \<and> AverageSpeed (st_stats st1) = 0 \<and> totalCount st1 = 0"
    using s1(2-4) by (simp add: NewStatsTracker_def zero_stats_def)
  have b: "AverageSpeed (st_stats st2) = 5 \<and> totalTime st2 = 11 \<and> totalCount st2 = 2"
    using s2(2-4) unfolding c m by simp
  from s1(1) s2(1) a b show ?thesis by blast
qed

section \<open>Properties of the probes and the detector\<close>

lemma CheckSOCKS4_upstream:
  "upstreamProxy \<noteq> [] \<Longrightarrow>
   CheckSOCKS4 nw proxyAddr endpoint upstreamProxy upstreamType =
     ([], Inl (if CHR '':'' \<notin> set proxyAddr then ErrInvalidProxyFormat
               else ''upstream proxy not supported for SOCKS4 checks''))"
  by (simp add: CheckSOCKS4_def)

lemma CheckSOCKS5_upstream:
  "upstreamProxy \<noteq> [] \<Longrightarrow>
   CheckSOCKS5 nw proxyAddr endpoint upstreamProxy upstreamType =
     ([], Inl (if CHR '':'' \<notin> set proxyAddr then ErrInvalidProxyFormat
               else ''upstream proxy not supported for SOCKS5 checks''))"
  by (simp add: CheckSOCKS5_def)

text \<open>
  C7, as the spec states it, fails where the candidate address has no port separator:
  the format guard stands before the upstream guard, and the error is the
  invalid-format one.
\<close>

theorem socks_upstream_counterexample:
  "CheckSOCKS5 refusing_network ''not-an-address'' ''https://api.ipify.org''
      ''10.0.0.1:1080'' SOCKS5 = ([], Inl ''invalid proxy format'') \<and>
   CheckSOCKS4 refusing_network ''not-an-address'' ''https://api.ipify.org''
      ''10.0.0.1:1080'' SOCKS5 = ([], Inl ''invalid proxy format'') \<and>
   ''invalid proxy format'' \<noteq> ''upstream proxy not supported for SOCKS5 checks'' \<and>
   ''invalid proxy format'' \<noteq> ''upstream proxy not supported for SOCKS4 checks''"
  by (simp add: CheckSOCKS5_def CheckSOCKS4_def ErrInvalidProxyFormat_def)

text \<open>
  C7, amended. A SOCKS4 or SOCKS5 probe called with a non-empty upstream address opens
  no connection and fails: with the unsupported-upstream error of its protocol when
  the candidate address contains a colon, with the invalid-format error when it does
  not.
\<close>

theorem socks_upstream_fails_before_connecting:
  "upstreamProxy \<noteq> [] \<longrightarrow>
     CheckSOCKS4 nw proxyAddr endpoint upstreamProxy upstreamType =
       ([], Inl (if CHR '':'' \<in> set proxyAddr
                 then ''upstream proxy not supported for SOCKS4 checks''
                 else ErrInvalidProxyFormat)) \<and>
     CheckSOCKS5 nw proxyAddr endpoint upstreamProxy upstreamType =
       ([], Inl (if CHR '':'' \<in> set proxyAddr
                 then ''upstream proxy not supported for SOCKS5 checks''
                 else ErrInvalidProxyFormat))"
  using CheckSOCKS4_upstream [of upstreamProxy nw proxyAddr endpoint upstreamType]
    CheckSOCKS5_upstream [of upstreamProxy nw proxyAddr endpoint upstreamType]
  by auto

theorem socks_upstream_fails_before_connecting_witness:
  "CheckSOCKS4 socks5_network ''203.0.113.5:1080'' ''https://api.ipify.org''
      ''10.0.0.1:1080'' SOCKS5 = ([], Inl ''upstream proxy not supported for SOCKS4 checks'') \<and>
   CheckSOCKS5 socks5_network ''203.0.113.5:1080'' ''https://api.ipify.org''
      ''10.0.0.1:1080'' SOCKS5 = ([], Inl ''upstream proxy not supported for SOCKS5 checks'') \<and>
   CheckSOCKS5 socks5_network ''203.0.113.5:1080'' ''https://api.ipify.org''
      [] SOCKS5 = ([Connect ''203.0.113.5:1080''], Inr ''203.0.113.5'')"
proof -
  have "''10.0.0.1:1080'' \<noteq> ([] :: string)" by simp
  with socks_upstream_fails_before_connecting
    [of "''10.0.0.1:1080''" socks5_network "''203.0.113.5:1080''" "''https://api.ipify.org''" SOCKS5]
  have "CheckSOCKS4 socks5_network ''203.0.113.5:1080'' ''https://api.ipify.org''
          ''10.0.0.1:1080'' SOCKS5 =
          ([], Inl (if CHR '':'' \<in> set ''203.0.113.5:1080''
                    then ''upstream proxy not supported for SOCKS4 checks''
                    else ErrInvalidProxyFormat))"
    and "CheckSOCKS5 socks5_network ''203.0.113.5:1080'' ''https://api.ipify.org''
          ''10.0.0.1:1080'' SOCKS5 =
          ([], Inl (if CHR '':'' \<in> set ''203.0.113.5:1080''
                    then ''upstream proxy not supported for SOCKS5 checks''
                    else ErrInvalidProxyFormat))"
    by blast+
  moreover have "CheckSOCKS5 socks5_network ''203.0.113.5:1080'' ''https://api.ipify.org''
      [] SOCKS5 = ([Connect ''203.0.113.5:1080''], Inr ''203.0.113.5'')"
    by (simp add: CheckSOCKS5_def socks5_network_def refusing_network_def)
  ultimately show ?thesis by simp
qed

lemma DetectProxyType_unfold:
  "DetectProxyType nw proxy =
     (if checkSOCKS5Quick nw proxy then ([SOCKS5], Inr SOCKS5)
      else if checkSOCKS4Quick nw proxy then ([SOCKS5, SOCKS4], Inr SOCKS4)
      else if checkHTTPSQuick nw proxy then ([SOCKS5, SOCKS4, HTTPS], Inr HTTPS)
      else if checkHTTPQuick nw proxy then ([SOCKS5, SOCKS4, HTTPS, HTTP], Inr HTTP)
      else ([SOCKS5, SOCKS4, HTTPS, HTTP], Inl ''could not detect proxy type''))"
  by (simp add: DetectProxyType_def protocols_def)

lemma DetectProxyType_fails_iff:
  "(\<exists>e. snd (DetectProxyType nw proxy) = Inl e) \<longleftrightarrow>
     \<not> checkSOCKS5Quick nw proxy \<and> \<not> checkSOCKS4Quick nw proxy \<and>
     \<not> checkHTTPSQuick nw proxy \<and> \<not> checkHTTPQuick nw proxy"
  by (simp add: DetectProxyType_unfold)

lemma resolve_type_fallback:
  "ProxyType r = Auto \<Longrightarrow> snd (DetectProxyType nw proxy) = Inl e \<Longrightarrow>
   resolve_type nw r proxy = HTTP"
  by (simp add: resolve_type_def)


lemma check_proxy_fields [simp]:
  "Proxy (check_proxy nw elapsed r proxy) = proxy"
  "Type (check_proxy nw elapsed r proxy) = resolve_type nw r proxy"
  "Latency (check_proxy nw elapsed r proxy) = elapsed"
  by (simp_all add: check_proxy_def Let_def split: sum.splits)

lemma check_proxy_status:
  "snd (run_check nw r (resolve_type nw r proxy) proxy) = Inl e \<Longrightarrow>
     Status (check_proxy nw elapsed r proxy) = ''DEAD'' \<and>
     Error (check_proxy nw elapsed r proxy) = e"
  "snd (run_check nw r (resolve_type nw r proxy) proxy) = Inr ip \<Longrightarrow>
     Status (check_proxy nw elapsed r proxy) = ''LIVE'' \<and>
     OutgoingIP (check_proxy nw elapsed r proxy) = ip"
  by (simp_all add: check_proxy_def Let_def)

lemma check_proxy_status_cases:
  "Status (check_proxy nw elapsed r proxy) = ''DEAD'' \<or>
   Status (check_proxy nw elapsed r proxy) = ''LIVE''"
  by (simp add: check_proxy_def Let_def split: sum.splits)

lemma run_check_HTTP:
  "run_check nw r HTTP proxy = CheckHTTP nw proxy (Endpoint r) (UpstreamProxy r) (UpstreamType r)"
  by (simp add: run_check_def)

lemma exec_Check_commit:
  "worker_at s i = Some (W_checking proxy) \<Longrightarrow>
   \<exists>s'. exec (Check i nw elapsed) s = Some s' \<and>
     worker_at s' i = Some (W_commit (check_proxy nw elapsed (req s) proxy)) \<and>
     mgr s' = mgr s \<and> jobs s' = jobs s \<and> req s' = req s"
  by (auto simp: do_check_def worker_at_def set_worker_def Let_def split: if_splits)

lemma exec_Append_results:
  "worker_at s i = Some (W_commit r) \<Longrightarrow>
   \<exists>s'. exec (Append i) s = Some s' \<and> worker_at s' i = Some W_range \<and>
     results (mgr s') = results (mgr s) @ [r] \<and> jobs s' = jobs s"
  by (auto simp: do_append_def worker_at_def set_worker_def append_result_def Let_def
      split: if_splits)

text \<open>
  C5. \<open>DetectProxyType\<close> runs the quick checks in the order SOCKS5, SOCKS4, HTTPS, HTTP,
  stops at the first that succeeds and returns its kind; it returns its error exactly
  when all four fail. In a run whose requested kind is \<open>auto\<close>, a failed detection
  leaves the job alive: the worker probes the endpoint with \<open>CheckHTTP\<close>, builds a result
  of kind \<open>http\<close> whose status is that probe's outcome, and appends it.
\<close>

theorem detect_order_and_http_fallback:
  "DetectProxyType nw proxy =
     (if checkSOCKS5Quick nw proxy then ([SOCKS5], Inr SOCKS5)
      else if checkSOCKS4Quick nw proxy then ([SOCKS5, SOCKS4], Inr SOCKS4)
      else if checkHTTPSQuick nw proxy then ([SOCKS5, SOCKS4, HTTPS], Inr HTTPS)
      else if checkHTTPQuick nw proxy then ([SOCKS5, SOCKS4, HTTPS, HTTP], Inr HTTP)
      else ([SOCKS5, SOCKS4, HTTPS, HTTP], Inl ''could not detect proxy type'')) \<and>
   ((\<exists>e. snd (DetectProxyType nw proxy) = Inl e) \<longleftrightarrow>
      \<not> checkSOCKS5Quick nw proxy \<and> \<not> checkSOCKS4Quick nw proxy \<and>
      \<not> checkHTTPSQuick nw proxy \<and> \<not> checkHTTPQuick nw proxy) \<and>
   (ProxyType (req s) = Auto \<and> (\<exists>e. snd (DetectProxyType nw proxy) = Inl e) \<and>
    worker_at s i = Some (W_checking proxy) \<longrightarrow>
      (\<exists>s1 s2 r. exec (Check i nw elapsed) s = Some s1 \<and>
         worker_at s1 i = Some (W_commit r) \<and>
         exec (Append i) s1 = Some s2 \<and>
         results (mgr s2) = results (mgr s) @ [r] \<and>
         Proxy r = proxy \<and> Type r = HTTP \<and>
         (case snd (CheckHTTP nw proxy (Endpoint (req s)) (UpstreamProxy (req s))
                      (UpstreamType (req s))) of
            Inl err \<Rightarrow> Status r = ''DEAD'' \<and> Error r = err
          | Inr ip \<Rightarrow> Status r = ''LIVE'' \<and> OutgoingIP r = ip)))"
proof -
  have "\<exists>s1 s2 r. exec (Check i nw elapsed) s = Some s1 \<and>
         worker_at s1 i = Some (W_commit r) \<and>
         exec (Append i) s1 = Some s2 \<and>
         results (mgr s2) = results (mgr s) @ [r] \<and>
         Proxy r = proxy \<and> Type r = HTTP \<and>
         (case snd (CheckHTTP nw proxy (Endpoint (req s)) (UpstreamProxy (req s))
                      (UpstreamType (req s))) of
            Inl err \<Rightarrow> Status r = ''DEAD'' \<and> Error r = err
          | Inr ip \<Rightarrow> Status r = ''LIVE'' \<and> OutgoingIP r = ip)"
    if a: "ProxyType (req s) = Auto" and d: "snd (DetectProxyType nw proxy) = Inl e"
      and w: "worker_at s i = Some (W_checking proxy)" for e
  proof -
    let ?r = "check_proxy nw elapsed (req s) proxy"
    have t: "resolve_type nw (req s) proxy = HTTP"
      using resolve_type_fallback [OF a d] .
    from exec_Check_commit [OF w, of nw elapsed]
    obtain s1 where s1: "exec (Check i nw elapsed) s = Some s1"
      "worker_at s1 i = Some (W_commit ?r)" "mgr s1 = mgr s" by blast
    from exec_Append_results [OF s1(2)]
    obtain s2 where s2: "exec (Append i) s1 = Some s2"
      "results (mgr s2) = results (mgr s1) @ [?r]" by blast
    have "case snd (CheckHTTP nw proxy (Endpoint (req s)) (UpstreamProxy (req s))
                      (UpstreamType (req s))) of
            Inl err \<Rightarrow> Status ?r = ''DEAD'' \<and> Error ?r = err
          | Inr ip \<Rightarrow> Status ?r = ''LIVE'' \<and> OutgoingIP ?r = ip"
      using check_proxy_status [of nw "req s" proxy _ elapsed] t
      by (simp add: run_check_HTTP split: sum.splits)
    with s1 s2 t show ?thesis by (intro exI [of _ s1] exI [of _ s2] exI [of _ ?r]) simp
  qed
  then show ?thesis
    using DetectProxyType_unfold [of nw proxy] DetectProxyType_fails_iff [of nw proxy]
    by blast
qed

theorem detect_order_and_http_fallback_witness:
  "DetectProxyType socks5_network ''203.0.113.5:8080'' = ([SOCKS5], Inr SOCKS5) \<and>
   (\<exists>s0 s s1 s2 r.
      Start (example_request [''203.0.113.5:8080''] Auto 1) NewManager = Inr s0 \<and>
      execs [Range 0, Select 0 CaseDefault] s0 = Some s \<and>
      exec (Check 0 refusing_network 12) s = Some s1 \<and>
      exec (Append 0) s1 = Some s2 \<and>
      results (mgr s2) = [r] \<and> Proxy r = ''203.0.113.5:8080'' \<and> Type r = HTTP \<and>
      Status r = ''DEAD'' \<and> Error r = ''proxy connection failed: connection refused'')"
proof -
  let ?p = "''203.0.113.5:8080''"
  let ?rq = "example_request [?p] Auto 1"
  obtain s0 where s0: "Start ?rq NewManager = Inr s0"
    and s0w: "workers s0 = [W_range]" and s0j: "jobs s0 = [?p]"
    and s0r: "req s0 = ?rq" and s0res: "results (mgr s0) = []"
    and s0c: "closed (mgr s0) = {}"
    by (simp add: Start_def example_request_def NewManager_def word_sless_alt)
  obtain s where s: "execs [Range 0, Select 0 CaseDefault] s0 = Some s"
    and sw: "worker_at s 0 = Some (W_checking ?p)" and sr: "req s = ?rq"
    and sres: "results (mgr s) = []"
    using s0w s0j s0r s0res s0c
    by (simp add: do_range_def do_select_def worker_at_def set_worker_def Let_def)
  have a: "ProxyType (req s) = Auto" by (simp add: sr example_request_def)
  have d: "\<exists>e. snd (DetectProxyType refusing_network ?p) = Inl e"
    by (simp add: DetectProxyType_unfold refusing_network_def)
  from detect_order_and_http_fallback [of refusing_network ?p s 0 12] a d sw
  obtain s1 s2 r where r: "exec (Check 0 refusing_network 12) s = Some s1"
    "exec (Append 0) s1 = Some s2" "results (mgr s2) = results (mgr s) @ [r]"
    "Proxy r = ?p" "Type r = HTTP"
    "case snd (CheckHTTP refusing_network ?p (Endpoint (req s)) (UpstreamProxy (req s))
                 (UpstreamType (req s))) of
       Inl err \<Rightarrow> Status r = ''DEAD'' \<and> Error r = err
     | Inr ip \<Rightarrow> Status r = ''LIVE'' \<and> OutgoingIP r = ip"
    by blast
  from r(6) have "Status r = ''DEAD'' \<and> Error r = ''proxy connection failed: connection refused''"
    by (simp add: CheckHTTP_def refusing_network_def)
  moreover have "DetectProxyType socks5_network ?p = ([SOCKS5], Inr SOCKS5)"
    using detect_order_and_http_fallback [of socks5_network ?p s 0 12]
    by (simp add: socks5_network_def refusing_network_def)
  ultimately show ?thesis using s0 s r(1-5) sres by auto
qed

section \<open>Properties of the control methods\<close>

text \<open>
  C8. While the Manager is running and not paused \<open>ClearResults\<close> returns it as it was;
  in every other state it leaves an empty result collection, an empty working list and
  zero statistics, so that \<open>GetResults()\<close> is empty and \<open>GetStats().Total\<close> is \<open>0\<close>.
\<close>

theorem clear_results_guarded:
  "(IsRunning m \<and> \<not> IsPaused m \<longrightarrow> ClearResults m = m) \<and>
   (\<not> (IsRunning m \<and> \<not> IsPaused m) \<longrightarrow>
      GetResults (ClearResults m) = [] \<and> Total (GetStats (ClearResults m)) = 0 \<and>
      stats (ClearResults m) = zero_stats \<and> working (ClearResults m) = [] \<and>
      GetStats (ClearResults m) = zero_stats)"
  by (simp add: ClearResults_def IsRunning_def IsPaused_def GetResults_def GetStats_def
      zero_stats_def Let_def)

theorem clear_results_guarded_witness:
  "GetResults (ClearResults (NewManager\<lparr>running := True, results := [zero_result]\<rparr>))
      = [zero_result] \<and>
   GetResults (ClearResults (NewManager\<lparr>running := True, paused := True,
      results := [zero_result]\<rparr>)) = [] \<and>
   Total (GetStats (ClearResults (NewManager\<lparr>results := [zero_result],
      stats := zero_stats\<lparr>Total := 1, Dead := 1\<rparr>\<rparr>))) = 0"
proof -
  let ?a = "NewManager\<lparr>running := True, results := [zero_result]\<rparr>"
  let ?b = "NewManager\<lparr>running := True, paused := True, results := [zero_result]\<rparr>"
  let ?c = "NewManager\<lparr>results := [zero_result], stats := zero_stats\<lparr>Total := 1, Dead := 1\<rparr>\<rparr>"
  have "IsRunning ?a \<and> \<not> IsPaused ?a"
    by (simp add: IsRunning_def IsPaused_def NewManager_def)
  with clear_results_guarded [of ?a] have "ClearResults ?a = ?a" by blast
  then have "GetResults (ClearResults ?a) = [zero_result]" by (simp add: GetResults_def)
  moreover have "\<not> (IsRunning ?b \<and> \<not> IsPaused ?b)"
    by (simp add: IsRunning_def IsPaused_def NewManager_def)
  with clear_results_guarded [of ?b] have "GetResults (ClearResults ?b) = []" by blast
  moreover have "\<not> (IsRunning ?c \<and> \<not> IsPaused ?c)"
    by (simp add: IsRunning_def IsPaused_def NewManager_def)
  with clear_results_guarded [of ?c] have "Total (GetStats (ClearResults ?c)) = 0" by blast
  ultimately show ?thesis by blast
qed

text \<open>
  C4 does not hold of the code. \<open>Stop\<close> itself writes \<open>m.running = false\<close> before it
  returns, whatever the workers are doing: on a running Manager the flag is down in
  the state \<open>Stop\<close> leaves, with every worker where it was and the goroutine behind
  \<open>wg.Wait()\<close> not yet run. (The comment that closes \<open>Stop\<close> says the flag is cleared
  when all workers finish.)
\<close>

theorem stop_clears_running_at_once:
  "IsRunning (mgr s) \<longrightarrow>
     (\<exists>s'. exec (CallStop force) s = Some s' \<and> \<not> IsRunning (mgr s') \<and>
        workers s' = workers s \<and> watcher_done s' = watcher_done s)"
  by (simp add: Stop_def IsRunning_def)

theorem stop_clears_running_at_once_witness:
  "\<exists>s0 s1. Start (example_request [''203.0.113.5:8080''] HTTP 1) NewManager = Inr s0 \<and>
     IsRunning (mgr s0) \<and>
     exec (CallStop True) s0 = Some s1 \<and> \<not> IsRunning (mgr s1) \<and>
     workers s1 = [W_range] \<and> \<not> completed s1 \<and> \<not> watcher_done s1"
proof -
  let ?rq = "example_request [''203.0.113.5:8080''] HTTP 1"
  obtain s0 where s0: "Start ?rq NewManager = Inr s0"
    and s0w: "workers s0 = [W_range]" and s0d: "\<not> watcher_done s0"
    and s0r: "IsRunning (mgr s0)"
    by (simp add: Start_def example_request_def NewManager_def word_sless_alt IsRunning_def)
  from stop_clears_running_at_once [of s0 True] s0r
  obtain s1 where "exec (CallStop True) s0 = Some s1" "\<not> IsRunning (mgr s1)"
    "workers s1 = workers s0" "watcher_done s1 = watcher_done s0" by blast
  with s0 s0w s0d s0r show ?thesis by (auto simp: completed_def)
qed

section \<open>Properties of a run\<close>

subsection \<open>What each step changes\<close>

lemma set_worker_fields [simp]:
  "mgr (set_worker i w s) = mgr s" "req (set_worker i w s) = req s"
  "jobs (set_worker i w s) = jobs s" "totalLatency (set_worker i w s) = totalLatency s"
  "liveCount (set_worker i w s) = liveCount s"
  "watcher_done (set_worker i w s) = watcher_done s"
  "workers (set_worker i w s) = (workers s)[i := w]"
  by (simp_all add: set_worker_def)

lemma worker_at_set_worker [simp]:
  "worker_at (set_worker i w s) j =
     (if j < length (workers s) then Some (if j = i then w else workers s ! j) else None)"
  by (simp add: worker_at_def)

lemma worker_at_Some:
  "worker_at s i = Some w \<longleftrightarrow> i < length (workers s) \<and> workers s ! i = w"
  by (auto simp: worker_at_def)

lemma worker_at_upd [simp]:
  "worker_at (s\<lparr>mgr := m\<rparr>) i = worker_at s i"
  "worker_at (s\<lparr>jobs := js\<rparr>) i = worker_at s i"
  "worker_at (s\<lparr>totalLatency := t, liveCount := c\<rparr>) i = worker_at s i"
  by (simp_all add: worker_at_def)

lemma do_range_cases:
  assumes "do_range i s = Some s'"
  shows "worker_at s i = Some W_range \<and>
         (jobs s = [] \<and> s' = set_worker i W_done s \<or>
          (\<exists>p ps. jobs s = p # ps \<and> s' = set_worker i (W_select p) (s\<lparr>jobs := ps\<rparr>)))"
  using assms by (auto simp: do_range_def split: option.splits wstate.splits list.splits)

lemma do_select_cases:
  assumes "do_select i c s = Some s'"
  shows "\<exists>p. worker_at s i = Some (W_select p) \<and>
           (c = CaseStop \<and> stopChan (mgr s) \<in> closed (mgr s) \<and> s' = set_worker i W_done s \<or>
            c = CasePause \<and> pauseChan (mgr s) \<in> closed (mgr s) \<and>
              s' = set_worker i (W_paused p) s \<or>
            c = CaseDefault \<and> stopChan (mgr s) \<notin> closed (mgr s) \<and>
              pauseChan (mgr s) \<notin> closed (mgr s) \<and> s' = set_worker i (W_checking p) s)"
  using assms
  by (auto simp: do_select_def Let_def
      split: option.splits wstate.splits select_case.splits if_splits)

lemma do_wait_cases:
  assumes "do_wait i s = Some s'"
  shows "\<exists>p. worker_at s i = Some (W_paused p) \<and>
           s' = set_worker i (W_waiting p (resumeChan (mgr s)) (stopChan (mgr s))) s"
  using assms by (auto simp: do_wait_def split: option.splits wstate.splits)

lemma do_wake_cases:
  assumes "do_wake i c s = Some s'"
  shows "\<exists>p rc sc. worker_at s i = Some (W_waiting p rc sc) \<and>
           (c = CaseResume \<and> rc \<in> closed (mgr s) \<and> s' = set_worker i W_range s \<or>
            c = CaseStopped \<and> sc \<in> closed (mgr s) \<and> s' = set_worker i W_done s)"
  using assms
  by (auto simp: do_wake_def split: option.splits wstate.splits wake_case.splits if_splits)

lemma do_check_cases:
  assumes "do_check i nw elapsed s = Some s'"
  shows "\<exists>p. worker_at s i = Some (W_checking p) \<and>
           s' = set_worker i (W_commit (check_proxy nw elapsed (req s) p))
                  (if Status (check_proxy nw elapsed (req s) p) = ''LIVE''
                   then s\<lparr>totalLatency := totalLatency s + elapsed,
                          liveCount := liveCount s + 1\<rparr>
                   else s)"
  using assms by (auto simp: do_check_def Let_def split: option.splits wstate.splits)

lemma do_append_cases:
  assumes "do_append i s = Some s'"
  shows "\<exists>r. worker_at s i = Some (W_commit r) \<and>
           s' = set_worker i W_range
                  (s\<lparr>mgr := append_result r (totalLatency s) (liveCount s) (mgr s)\<rparr>)"
  using assms by (auto simp: do_append_def split: option.splits wstate.splits)

lemma do_watcher_cases:
  assumes "do_watcher s = Some s'"
  shows "\<not> watcher_done s \<and> completed s \<and>
         s' = s\<lparr>mgr := (mgr s)\<lparr>running := False, paused := False\<rparr>, watcher_done := True\<rparr>"
  using assms by (auto simp: do_watcher_def split: if_splits)

lemma append_result_fields [simp]:
  "results (append_result r t c m) = results m @ [r]"
  "running (append_result r t c m) = running m"
  "paused (append_result r t c m) = paused m"
  "stopChan (append_result r t c m) = stopChan m"
  "pauseChan (append_result r t c m) = pauseChan m"
  "resumeChan (append_result r t c m) = resumeChan m"
  "closed (append_result r t c m) = closed m"
  "nextChan (append_result r t c m) = nextChan m"
  "workerCount (append_result r t c m) = workerCount m"
  "pausedWorkerCount (append_result r t c m) = pausedWorkerCount m"
  by (simp_all add: append_result_def Let_def)

lemma execs_append:
  "execs (xs @ ys) s = (case execs xs s of None \<Rightarrow> None | Some s' \<Rightarrow> execs ys s')"
  by (induction xs arbitrary: s) (auto split: option.splits)

lemma execs_induct_inv:
  assumes "execs xs s = Some s'" and "P s"
    and "\<And>a t t'. a \<in> set xs \<Longrightarrow> P t \<Longrightarrow> exec a t = Some t' \<Longrightarrow> P t'"
  shows "P s'"
  using assms
proof (induction xs arbitrary: s)
  case Nil
  then show ?case by simp
next
  case (Cons a xs)
  from Cons.prems(1) obtain t where t: "exec a s = Some t" "execs xs t = Some s'"
    by (auto split: option.splits)
  have pt: "P t" using Cons.prems(3) [of a s t] Cons.prems(2) t(1) by simp
  show ?case
  proof (rule Cons.IH [OF t(2) pt])
    fix b u u'
    assume "b \<in> set xs" and "P u" and "exec b u = Some u'"
    with Cons.prems(3) [of b u u'] show "P u'" by simp
  qed
qed

subsection \<open>The paused-worker counter\<close>

lemma goroutine_step_counters:
  assumes "goroutine_step a" and "exec a s = Some s'"
  shows "pausedWorkerCount (mgr s') = pausedWorkerCount (mgr s) \<and>
         workerCount (mgr s') = workerCount (mgr s)"
proof (cases a)
  case (Range i)
  with assms show ?thesis by (auto dest!: do_range_cases)
next
  case (Select i c)
  with assms show ?thesis by (auto dest!: do_select_cases)
next
  case (Wait i)
  with assms show ?thesis by (auto dest!: do_wait_cases)
next
  case (Wake i c)
  with assms show ?thesis by (auto dest!: do_wake_cases)
next
  case (Check i nw elapsed)
  with assms show ?thesis by (auto dest!: do_check_cases)
next
  case (Append i)
  with assms show ?thesis by (auto dest!: do_append_cases)
next
  case Watcher
  with assms show ?thesis by (auto dest!: do_watcher_cases)
qed (use assms in simp_all)

lemma goroutine_steps_counters:
  assumes "list_all goroutine_step xs" and "execs xs s = Some s'"
  shows "pausedWorkerCount (mgr s') = pausedWorkerCount (mgr s) \<and>
         workerCount (mgr s') = workerCount (mgr s)"
proof -
  let ?P = "\<lambda>t. pausedWorkerCount (mgr t) = pausedWorkerCount (mgr s) \<and>
                 workerCount (mgr t) = workerCount (mgr s)"
  show ?thesis
  proof (rule execs_induct_inv [OF assms(2), of ?P])
    fix a t t'
    assume "a \<in> set xs" and "?P t" and "exec a t = Some t'"
    with assms(1) goroutine_step_counters [of a t t'] show "?P t'"
      by (auto simp: list_all_iff)
  qed simp
qed

text \<open>
  C3 does not hold of the code. \<open>Pause\<close> resets the paused-worker counter and no step
  of a worker touches it (\<open>IncrementPausedWorkerCount\<close> has no caller): after a \<open>Pause\<close>
  that succeeds, whatever the goroutines of the run then do, \<open>GetPausedWorkerCount()\<close> is
  \<open>0\<close> and \<open>GetWorkerCount()\<close> is the number of workers the run started with.
\<close>

theorem paused_worker_count_stays_zero:
  "Pause (mgr s) = Some (True, m') \<and> list_all goroutine_step xs \<and>
   execs xs (s\<lparr>mgr := m'\<rparr>) = Some s' \<longrightarrow>
     GetPausedWorkerCount (mgr s') = 0 \<and> GetWorkerCount (mgr s') = GetWorkerCount (mgr s)"
proof (intro impI, elim conjE)
  assume p: "Pause (mgr s) = Some (True, m')" and g: "list_all goroutine_step xs"
    and e: "execs xs (s\<lparr>mgr := m'\<rparr>) = Some s'"
  from p have "pausedWorkerCount m' = 0 \<and> workerCount m' = workerCount (mgr s)"
    by (auto simp: Pause_def split: if_splits)
  with goroutine_steps_counters [OF g e]
  show "GetPausedWorkerCount (mgr s') = 0 \<and> GetWorkerCount (mgr s') = GetWorkerCount (mgr s)"
    by (simp add: GetPausedWorkerCount_def GetWorkerCount_def)
qed

theorem paused_worker_count_stays_zero_witness:
  "\<exists>s0 m1 s1 rc sc.
     Start (example_request [''203.0.113.5:8080''] HTTP 1) NewManager = Inr s0 \<and>
     Pause (mgr s0) = Some (True, m1) \<and>
     execs [Range 0, Select 0 CasePause, Wait 0] (s0\<lparr>mgr := m1\<rparr>) = Some s1 \<and>
     workers s1 = [W_waiting ''203.0.113.5:8080'' rc sc] \<and>
     GetPausedWorkerCount (mgr s1) = 0 \<and> GetWorkerCount (mgr s1) = 1"
proof -
  let ?p = "''203.0.113.5:8080''"
  let ?rq = "example_request [?p] HTTP 1"
  obtain s0 where s0: "Start ?rq NewManager = Inr s0"
    and s0w: "workers s0 = [W_range]" and s0j: "jobs s0 = [?p]"
    and s0m: "running (mgr s0)" "\<not> paused (mgr s0)" "closed (mgr s0) = {}"
      "pauseChan (mgr s0) = 4" "resumeChan (mgr s0) = 5" "stopChan (mgr s0) = 3"
      "workerCount (mgr s0) = 1"
    by (simp add: Start_def example_request_def NewManager_def word_sless_alt eval_nat_numeral)
  obtain m1 where m1: "Pause (mgr s0) = Some (True, m1)"
    and m1c: "closed m1 = {4}" "pauseChan m1 = 4" "resumeChan m1 = 5" "stopChan m1 = 3"
    using s0m by (simp add: Pause_def)
  obtain s1 where s1: "execs [Range 0, Select 0 CasePause, Wait 0] (s0\<lparr>mgr := m1\<rparr>) = Some s1"
    and s1w: "workers s1 = [W_waiting ?p 5 3]"
    using s0w s0j m1c
    by (simp add: do_range_def do_select_def do_wait_def worker_at_def set_worker_def Let_def)
  have g: "list_all goroutine_step [Range 0, Select 0 CasePause, Wait 0]" by simp
  from paused_worker_count_stays_zero [of s0 m1 "[Range 0, Select 0 CasePause, Wait 0]" s1]
    m1 g s1
  have "GetPausedWorkerCount (mgr s1) = 0 \<and> GetWorkerCount (mgr s1) = GetWorkerCount (mgr s0)"
    by blast
  with s0 m1 s1 s1w s0m(7) show ?thesis by (auto simp: GetWorkerCount_def)
qed

subsection \<open>An endpoint taken at a pause or a stop\<close>

lemma exec_Select_stop:
  "worker_at s i = Some (W_select p) \<Longrightarrow> exec (Select i CaseStop) s = Some s1 \<Longrightarrow>
   worker_at s1 i = Some W_done \<and> mgr s1 = mgr s \<and> jobs s1 = jobs s"
  by (auto dest!: do_select_cases simp: worker_at_Some)

lemma exec_Select_pause:
  "worker_at s i = Some (W_select p) \<Longrightarrow> exec (Select i CasePause) s = Some s1 \<Longrightarrow>
   worker_at s1 i = Some (W_paused p) \<and> mgr s1 = mgr s \<and> jobs s1 = jobs s"
  by (auto dest!: do_select_cases simp: worker_at_Some)

lemma exec_Wait:
  assumes w: "worker_at s i = Some (W_paused p)"
  shows "\<exists>s1. exec (Wait i) s = Some s1 \<and>
     worker_at s1 i = Some (W_waiting p (resumeChan (mgr s)) (stopChan (mgr s))) \<and>
     mgr s1 = mgr s \<and> jobs s1 = jobs s"
proof -
  from w have "i < length (workers s)" by (simp add: worker_at_Some)
  with w show ?thesis by (simp add: do_wait_def)
qed

lemma exec_Wake:
  "worker_at s i = Some (W_waiting p rc sc) \<Longrightarrow> exec (Wake i c) s = Some s1 \<Longrightarrow>
   worker_at s1 i = Some (case c of CaseResume \<Rightarrow> W_range | CaseStopped \<Rightarrow> W_done) \<and>
   mgr s1 = mgr s \<and> jobs s1 = jobs s"
  by (auto dest!: do_wake_cases simp: worker_at_Some)

lemma pause_resume_run:
  "\<exists>xs s0 s'. Start (example_request [''203.0.113.5:8080''] HTTP 1) NewManager = Inr s0 \<and>
     execs xs s0 = Some s' \<and> CallPause \<in> set xs \<and> CallResume \<in> set xs \<and>
     completed s' \<and> watcher_done s' \<and> \<not> IsRunning (mgr s') \<and>
     GetResults (mgr s') = [] \<and> Total (GetStats (mgr s')) = 1 \<and>
     Pending (GetStats (mgr s')) = 1"
proof -
  let ?p = "''203.0.113.5:8080''"
  let ?rq = "example_request [?p] HTTP 1"
  let ?xs = "[CallPause, Range 0, Select 0 CasePause, Wait 0, CallResume,
              Wake 0 CaseResume, Range 0, Watcher]"
  obtain s0 where s0: "Start ?rq NewManager = Inr s0"
    and s0w: "workers s0 = [W_range]" and s0j: "jobs s0 = [?p]"
    and s0d: "\<not> watcher_done s0"
    and s0m: "running (mgr s0)" "\<not> paused (mgr s0)" "closed (mgr s0) = {}"
      "pauseChan (mgr s0) = 4" "resumeChan (mgr s0) = 5" "stopChan (mgr s0) = 3"
      "nextChan (mgr s0) = 6" "results (mgr s0) = []"
      "Total (stats (mgr s0)) = 1" "Live (stats (mgr s0)) = 0"
      "Dead (stats (mgr s0)) = 0" "Errors (stats (mgr s0)) = 0"
    by (simp add: Start_def example_request_def NewManager_def word_sless_alt eval_nat_numeral
        zero_stats_def)
  obtain s1 where s1: "execs [CallPause, Range 0, Select 0 CasePause, Wait 0] s0 = Some s1"
    and s1w: "workers s1 = [W_waiting ?p 5 3]" and s1j: "jobs s1 = []"
    and s1d: "\<not> watcher_done s1"
    and s1m: "running (mgr s1)" "paused (mgr s1)" "closed (mgr s1) = {4}"
      "resumeChan (mgr s1) = 5" "results (mgr s1) = []" "stats (mgr s1) = stats (mgr s0)"
    using s0w s0j s0d s0m
    by (simp add: Pause_def do_range_def do_select_def do_wait_def worker_at_def
        set_worker_def Let_def)
  obtain s2 where s2: "execs [CallResume, Wake 0 CaseResume, Range 0, Watcher] s1 = Some s2"
    and s2w: "workers s2 = [W_done]" and s2d: "watcher_done s2"
    and s2m: "\<not> running (mgr s2)" "results (mgr s2) = []" "stats (mgr s2) = stats (mgr s0)"
    using s1w s1j s1d s1m
    by (simp add: Resume_def do_wake_def do_range_def do_watcher_def completed_def
        worker_at_def set_worker_def Let_def)
  have "execs ?xs s0 = Some s2"
    using execs_append [of "[CallPause, Range 0, Select 0 CasePause, Wait 0]"
        "[CallResume, Wake 0 CaseResume, Range 0, Watcher]" s0] s1 s2 by simp
  moreover have "Total (GetStats (mgr s2)) = 1 \<and> Pending (GetStats (mgr s2)) = 1"
    using s2m s0m by (simp add: GetStats_def zero_stats_def Let_def)
  ultimately show ?thesis
    using s0 s2w s2d s2m
    by (intro exI [of _ ?xs] exI [of _ s0] exI [of _ s2])
      (simp add: completed_def IsRunning_def GetResults_def)
qed

text \<open>
  C9. A worker that has received an endpoint and then takes the stop case of the outer
  \<open>select\<close> returns; one that takes the pause case blocks on the resume and stop
  channels and, woken, goes back to the head of the loop (on resume) or returns (on
  stop). None of these steps probes the endpoint, puts it back on the queue, or touches
  the result collection and the statistics: the endpoint is dropped. Hence a run with a
  pause and a resume can complete with fewer results than endpoints: the run of one
  worker on one endpoint below completes with no result and \<open>Pending = 1\<close>.
\<close>

theorem endpoint_dropped_at_pause_or_stop:
  "(worker_at s i = Some (W_select p) \<longrightarrow>
      (\<forall>s1. exec (Select i CaseStop) s = Some s1 \<longrightarrow>
         worker_at s1 i = Some W_done \<and> mgr s1 = mgr s \<and> jobs s1 = jobs s) \<and>
      (\<forall>s1. exec (Select i CasePause) s = Some s1 \<longrightarrow>
         worker_at s1 i = Some (W_paused p) \<and> mgr s1 = mgr s \<and> jobs s1 = jobs s)) \<and>
   (worker_at s i = Some (W_paused p) \<longrightarrow>
      (\<exists>s1. exec (Wait i) s = Some s1 \<and>
         worker_at s1 i = Some (W_waiting p (resumeChan (mgr s)) (stopChan (mgr s))) \<and>
         mgr s1 = mgr s \<and> jobs s1 = jobs s)) \<and>
   (worker_at s i = Some (W_waiting p rc sc) \<longrightarrow>
      (\<forall>c s1. exec (Wake i c) s = Some s1 \<longrightarrow>
         worker_at s1 i = Some (case c of CaseResume \<Rightarrow> W_range | CaseStopped \<Rightarrow> W_done) \<and>
         mgr s1 = mgr s \<and> jobs s1 = jobs s)) \<and>
   (\<exists>xs s0 s'. Start (example_request [''203.0.113.5:8080''] HTTP 1) NewManager = Inr s0 \<and>
      execs xs s0 = Some s' \<and> CallPause \<in> set xs \<and> CallResume \<in> set xs \<and>
      completed s' \<and> watcher_done s' \<and> \<not> IsRunning (mgr s') \<and>
      GetResults (mgr s') = [] \<and> Total (GetStats (mgr s')) = 1 \<and>
      Pending (GetStats (mgr s')) = 1)"
  using exec_Select_stop [of s i p] exec_Select_pause [of s i p] exec_Wait [of s i p]
    exec_Wake [of s i p rc sc] pause_resume_run
  by blast

theorem endpoint_dropped_at_pause_or_stop_witness:
  "\<exists>s0 m1 s1 s2 s3 m4 s5.
     Start (example_request [''203.0.113.5:8080'', ''203.0.113.6:8080''] HTTP 1) NewManager = Inr s0 \<and>
     Pause (mgr s0) = Some (True, m1) \<and>
     exec (Range 0) (s0\<lparr>mgr := m1\<rparr>) = Some s1 \<and>
     worker_at s1 0 = Some (W_select ''203.0.113.5:8080'') \<and>
     exec (Select 0 CasePause) s1 = Some s2 \<and>
     exec (Wait 0) s2 = Some s3 \<and>
     Resume (mgr s3) = Some (True, m4) \<and>
     exec (Wake 0 CaseResume) (s3\<lparr>mgr := m4\<rparr>) = Some s5 \<and>
     worker_at s5 0 = Some W_range \<and> jobs s5 = [''203.0.113.6:8080''] \<and>
     results (mgr s5) = [] \<and> stats (mgr s5) = stats (mgr s0)"
proof -
  let ?p = "''203.0.113.5:8080''"
  let ?q = "''203.0.113.6:8080''"
  let ?rq = "example_request [?p, ?q] HTTP 1"
  obtain s0 where s0: "Start ?rq NewManager = Inr s0"
    and s0w: "workers s0 = [W_range]" and s0j: "jobs s0 = [?p, ?q]"
    and s0m: "running (mgr s0)" "\<not> paused (mgr s0)" "closed (mgr s0) = {}"
      "pauseChan (mgr s0) = 4" "resumeChan (mgr s0) = 5" "stopChan (mgr s0) = 3"
      "results (mgr s0) = []"
    by (simp add: Start_def example_request_def NewManager_def word_sless_alt eval_nat_numeral)
  obtain m1 where m1: "Pause (mgr s0) = Some (True, m1)"
    and m1c: "closed m1 = {4}" "pauseChan m1 = 4" "resumeChan m1 = 5" "stopChan m1 = 3"
      "running m1" "paused m1" "results m1 = []" "stats m1 = stats (mgr s0)"
    using s0m by (simp add: Pause_def)
  obtain s1 where s1: "exec (Range 0) (s0\<lparr>mgr := m1\<rparr>) = Some s1"
    and s1w: "worker_at s1 0 = Some (W_select ?p)" and s1j: "jobs s1 = [?q]"
    and s1m: "mgr s1 = m1"
    using s0w s0j by (simp add: do_range_def worker_at_def)
  obtain s2 where s2: "exec (Select 0 CasePause) s1 = Some s2"
    using s1w s1m m1c by (simp add: do_select_def)
  note T1 = endpoint_dropped_at_pause_or_stop
    [of s1 0 ?p 5 3, THEN conjunct1, rule_format, OF s1w, THEN conjunct2, rule_format, OF s2]
  from T1 have s2w: "worker_at s2 0 = Some (W_paused ?p)"
    and s2m: "mgr s2 = mgr s1" and s2j: "jobs s2 = jobs s1" by simp_all
  note T2 = endpoint_dropped_at_pause_or_stop
    [of s2 0 ?p 5 3, THEN conjunct2, THEN conjunct1, rule_format, OF s2w]
  from T2 obtain s3 where s3: "exec (Wait 0) s2 = Some s3"
    and s3w: "worker_at s3 0 = Some (W_waiting ?p (resumeChan (mgr s2)) (stopChan (mgr s2)))"
    and s3m: "mgr s3 = mgr s2" and s3j: "jobs s3 = jobs s2" by blast
  have s3w': "worker_at s3 0 = Some (W_waiting ?p 5 3)"
    using s3w s2m s1m m1c by simp
  obtain m4 where m4: "Resume (mgr s3) = Some (True, m4)"
    and m4c: "5 \<in> closed m4" "results m4 = []" "stats m4 = stats (mgr s0)"
    using s3m s2m s1m m1c by (simp add: Resume_def)
  have s3w'': "worker_at (s3\<lparr>mgr := m4\<rparr>) 0 = Some (W_waiting ?p 5 3)"
    using s3w' by simp
  obtain s5 where s5: "exec (Wake 0 CaseResume) (s3\<lparr>mgr := m4\<rparr>) = Some s5"
    using s3w' m4c by (simp add: do_wake_def)
  note T3 = endpoint_dropped_at_pause_or_stop
    [of "s3\<lparr>mgr := m4\<rparr>" 0 ?p 5 3, THEN conjunct2, THEN conjunct2, THEN conjunct1,
     rule_format, OF s3w'' s5]
  from T3 have s5w: "worker_at s5 0 = Some W_range" and s5m: "mgr s5 = m4"
    and s5j: "jobs s5 = jobs s3" by simp_all
  have "jobs s5 = [?q]" using s5j s3j s2j s1j by simp
  moreover have "results (mgr s5) = [] \<and> stats (mgr s5) = stats (mgr s0)"
    using s5m m4c by simp
  ultimately show ?thesis
    using s0 m1 s1 s1w s2 s3 m4 s5 s5w
    by (intro exI [of _ s0] exI [of _ m1] exI [of _ s1] exI [of _ s2] exI [of _ s3]
        exI [of _ m4] exI [of _ s5]) simp
qed

subsection \<open>What the control methods leave alone\<close>

lemma Stop_frame [simp]:
  "results (Stop f m) = results m" "stats (Stop f m) = stats m"
  by (simp_all add: Stop_def)

lemma Pause_frame:
  "Pause m = Some (ok, m') \<Longrightarrow> results m' = results m \<and> stats m' = stats m"
  by (auto simp: Pause_def split: if_splits)

lemma Resume_frame:
  "Resume m = Some (ok, m') \<Longrightarrow> results m' = results m \<and> stats m' = stats m"
  by (auto simp: Resume_def split: if_splits)

lemma ForceStop_frame:
  "ForceStop m = Some m' \<Longrightarrow> results m' = results m \<and> stats m' = stats m"
  by (auto simp: ForceStop_def split: if_splits)

lemma ForcePause_frame:
  "ForcePause m = Some (ok, m') \<Longrightarrow> results m' = results m \<and> stats m' = stats m"
  by (auto simp: ForcePause_def split: if_splits)

lemma ClearResults_cases:
  "ClearResults m = m \<or> (results (ClearResults m) = [] \<and> stats (ClearResults m) = zero_stats)"
  by (simp add: ClearResults_def)

text \<open>
  Every step but \<open>Append\<close> and \<open>ClearResults\<close> leaves the result collection and the
  statistics as they are, and changes at most one worker, the queue and the totals.
\<close>

lemma exec_frame:
  assumes "exec a s = Some s'" and "\<forall>i. a \<noteq> Append i" and "a \<noteq> CallClearResults"
  shows "results (mgr s') = results (mgr s) \<and> stats (mgr s') = stats (mgr s)"
proof (cases a)
  case (Range i)
  with assms show ?thesis by (auto dest!: do_range_cases)
next
  case (Select i c)
  with assms show ?thesis by (auto dest!: do_select_cases)
next
  case (Wait i)
  with assms show ?thesis by (auto dest!: do_wait_cases)
next
  case (Wake i c)
  with assms show ?thesis by (auto dest!: do_wake_cases)
next
  case (Check i nw elapsed)
  with assms show ?thesis by (auto dest!: do_check_cases)
next
  case (Append i)
  with assms show ?thesis by simp
next
  case Watcher
  with assms show ?thesis by (auto dest!: do_watcher_cases)
next
  case (CallStop f)
  with assms show ?thesis by auto
next
  case CallPause
  with assms show ?thesis by (auto dest: Pause_frame)
next
  case CallResume
  with assms show ?thesis by (auto dest: Resume_frame)
next
  case CallForceStop
  with assms show ?thesis by (auto dest: ForceStop_frame)
next
  case CallForcePause
  with assms show ?thesis by (auto dest: ForcePause_frame)
next
  case CallClearResults
  with assms show ?thesis by simp
qed

lemma exec_call_frame:
  assumes "exec a s = Some s'" and "\<not> goroutine_step a"
  shows "workers s' = workers s \<and> jobs s' = jobs s \<and> req s' = req s \<and>
         totalLatency s' = totalLatency s \<and> liveCount s' = liveCount s"
  using assms by (cases a) auto

lemma exec_req:
  assumes "exec a s = Some s'"
  shows "req s' = req s"
proof (cases "goroutine_step a")
  case False
  with assms exec_call_frame show ?thesis by blast
next
  case True
  show ?thesis
  proof (cases a)
    case (Range i)
    with assms show ?thesis by (auto dest!: do_range_cases)
  next
    case (Select i c)
    with assms show ?thesis by (auto dest!: do_select_cases)
  next
    case (Wait i)
    with assms show ?thesis by (auto dest!: do_wait_cases)
  next
    case (Wake i c)
    with assms show ?thesis by (auto dest!: do_wake_cases)
  next
    case (Check i nw elapsed)
    with assms show ?thesis by (auto dest!: do_check_cases)
  next
    case (Append i)
    with assms show ?thesis by (auto dest!: do_append_cases)
  next
    case Watcher
    with assms show ?thesis by (auto dest!: do_watcher_cases)
  qed (use True in simp_all)
qed

lemma execs_req: "execs xs s = Some s' \<Longrightarrow> req s' = req s"
  by (induction xs arbitrary: s) (auto split: option.splits dest: exec_req)

subsection \<open>The counters follow the result collection\<close>

lemma kind_counts_snoc: "kind_counts (rs @ [r]) = map_incr (kind_counts rs) (Type r)"
  by (simp add: kind_counts_def)

lemma append_result_stats [simp]:
  "Live (stats (append_result r t c m)) =
     (if Status r = ''LIVE'' then Live (stats m) + 1 else Live (stats m))"
  "Dead (stats (append_result r t c m)) =
     (if Status r = ''DEAD'' then Dead (stats m) + 1 else Dead (stats m))"
  "Errors (stats (append_result r t c m)) =
     (if Status r \<noteq> ''LIVE'' \<and> Status r \<noteq> ''DEAD'' then Errors (stats m) + 1
      else Errors (stats m))"
  "TypeCounts (stats (append_result r t c m)) = map_incr (TypeCounts (stats m)) (Type r)"
  "Total (stats (append_result r t c m)) = Total (stats m)"
  "AverageSpeed (stats (append_result r t c m)) =
     (if 0 <s c then go_div t c else AverageSpeed (stats m))"
  by (simp_all add: append_result_def Let_def)

lemma counters_match_append:
  assumes "counters_match m"
  shows "counters_match (append_result r t c m)"
proof -
  from assms have
    l: "Live (stats m) = of_nat (length (filter (\<lambda>r. Status r = ''LIVE'') (results m)))" and
    d: "Dead (stats m) = of_nat (length (filter (\<lambda>r. Status r = ''DEAD'') (results m)))" and
    e: "Errors (stats m) =
       of_nat (length (filter (\<lambda>r. Status r \<noteq> ''LIVE'' \<and> Status r \<noteq> ''DEAD'') (results m)))" and
    k: "TypeCounts (stats m) = kind_counts (results m)"
    by (simp_all add: counters_match_def)
  have "Live (stats (append_result r t c m)) =
      of_nat (length (filter (\<lambda>r. Status r = ''LIVE'') (results m @ [r])))"
    by (simp add: l)
  moreover have "Dead (stats (append_result r t c m)) =
      of_nat (length (filter (\<lambda>r. Status r = ''DEAD'') (results m @ [r])))"
    by (simp add: d)
  moreover have "Errors (stats (append_result r t c m)) =
      of_nat (length (filter (\<lambda>r. Status r \<noteq> ''LIVE'' \<and> Status r \<noteq> ''DEAD'') (results m @ [r])))"
    by (simp add: e)
  moreover have "TypeCounts (stats (append_result r t c m)) = kind_counts (results m @ [r])"
    by (simp add: k kind_counts_snoc)
  ultimately show ?thesis by (simp add: counters_match_def)
qed


lemma counters_match_clear:
  "counters_match m \<Longrightarrow> counters_match (ClearResults m)"
  by (simp add: counters_match_def ClearResults_def zero_stats_def kind_counts_def)

lemma counters_match_cong:
  "results m' = results m \<Longrightarrow> stats m' = stats m \<Longrightarrow> counters_match m' = counters_match m"
  by (simp add: counters_match_def)

lemma exec_counters_match:
  assumes e: "exec a s = Some s'" and c: "counters_match (mgr s)"
  shows "counters_match (mgr s')"
proof (cases a)
  case (Append i)
  with e have "do_append i s = Some s'" by simp
  from do_append_cases [OF this] obtain r where
    "s' = set_worker i W_range
            (s\<lparr>mgr := append_result r (totalLatency s) (liveCount s) (mgr s)\<rparr>)" by blast
  then have "mgr s' = append_result r (totalLatency s) (liveCount s) (mgr s)" by simp
  with counters_match_append [OF c] show ?thesis by simp
next
  case CallClearResults
  with e have "mgr s' = ClearResults (mgr s)" by auto
  with counters_match_clear [OF c] show ?thesis by simp
qed (use exec_frame [OF e] c counters_match_cong [of "mgr s'" "mgr s"] in simp_all)

lemma Start_counters_match: "Start rq m = Inr s0 \<Longrightarrow> counters_match (mgr s0)"
  by (auto simp: Start_def counters_match_def zero_stats_def kind_counts_def split: if_splits)

lemma execs_counters_match:
  "execs xs s = Some s' \<Longrightarrow> counters_match (mgr s) \<Longrightarrow> counters_match (mgr s')"
proof (induction xs arbitrary: s)
  case Nil
  then show ?case by simp
next
  case (Cons a xs)
  from Cons.prems obtain t where t: "exec a s = Some t" "execs xs t = Some s'"
    by (auto split: option.splits)
  from exec_counters_match [OF t(1) Cons.prems(2)] Cons.IH [OF t(2)] show ?case by simp
qed

subsection \<open>No endpoint is counted twice\<close>

lemma sum_list_map_update:
  fixes f :: "'a \<Rightarrow> 'b::comm_monoid_add"
  shows "i < length ws \<Longrightarrow>
    sum_list (map f (ws[i := w])) + f (ws ! i) = sum_list (map f ws) + f w"
proof (induction ws arbitrary: i)
  case Nil
  then show ?case by simp
next
  case (Cons x ws)
  show ?case
  proof (cases i)
    case 0
    then show ?thesis by (simp add: ac_simps)
  next
    case (Suc j)
    with Cons.prems have "j < length ws" by simp
    note ih = Cons.IH [OF this]
    have "sum_list (map f ((x # ws)[i := w])) + f ((x # ws) ! i) =
          f x + (sum_list (map f (ws[j := w])) + f (ws ! j))"
      using Suc by (simp only: list_update_code nth_Cons_Suc list.map sum_list.Cons add.assoc)
    also have "\<dots> = f x + (sum_list (map f ws) + f w)"
      by (simp only: ih)
    also have "\<dots> = sum_list (map f (x # ws)) + f w"
      by (simp only: list.map sum_list.Cons add.assoc)
    finally show ?thesis .
  qed
qed

lemma worker_sum_update:
  fixes f :: "wstate \<Rightarrow> 'b::comm_monoid_add"
  assumes "worker_at s i = Some w"
  shows "sum_list (map f ((workers s)[i := w'])) + f w = sum_list (map f (workers s)) + f w'"
  using assms sum_list_map_update [of i "workers s" f w'] by (auto simp: worker_at_Some)

lemma load_range:
  assumes "do_range i s = Some s'"
  shows "load s' = load s"
proof -
  from do_range_cases [OF assms] have w: "worker_at s i = Some W_range"
    and c: "jobs s = [] \<and> s' = set_worker i W_done s \<or>
      (\<exists>p ps. jobs s = p # ps \<and> s' = set_worker i (W_select p) (s\<lparr>jobs := ps\<rparr>))"
    by blast+
  from c show ?thesis
  proof
    assume "jobs s = [] \<and> s' = set_worker i W_done s"
    with worker_sum_update [OF w, of in_flight W_done] show ?thesis by (simp add: load_def)
  next
    assume "\<exists>p ps. jobs s = p # ps \<and> s' = set_worker i (W_select p) (s\<lparr>jobs := ps\<rparr>)"
    then obtain p ps where j: "jobs s = p # ps"
      and s': "s' = set_worker i (W_select p) (s\<lparr>jobs := ps\<rparr>)" by blast
    from worker_sum_update [OF w, of in_flight "W_select p"] j s'
    show ?thesis by (simp add: load_def)
  qed
qed

lemma load_select:
  assumes "do_select i c s = Some s'"
  shows "load s' \<le> load s"
proof -
  from do_select_cases [OF assms] obtain p where w: "worker_at s i = Some (W_select p)"
    and c: "s' = set_worker i W_done s \<or> s' = set_worker i (W_paused p) s \<or>
     s' = set_worker i (W_checking p) s" by blast
  from c worker_sum_update [OF w, of in_flight W_done]
    worker_sum_update [OF w, of in_flight "W_paused p"]
    worker_sum_update [OF w, of in_flight "W_checking p"]
  show ?thesis by (auto simp: load_def)
qed

lemma load_wait:
  assumes "do_wait i s = Some s'"
  shows "load s' = load s"
proof -
  from do_wait_cases [OF assms] obtain p where w: "worker_at s i = Some (W_paused p)"
    and c: "s' = set_worker i (W_waiting p (resumeChan (mgr s)) (stopChan (mgr s))) s"
    by blast
  from c worker_sum_update [OF w, of in_flight "W_waiting p (resumeChan (mgr s)) (stopChan (mgr s))"]
  show ?thesis by (simp add: load_def)
qed

lemma load_wake:
  assumes "do_wake i c s = Some s'"
  shows "load s' = load s"
proof -
  from do_wake_cases [OF assms] obtain p rc sc where w: "worker_at s i = Some (W_waiting p rc sc)"
    and c: "s' = set_worker i W_range s \<or> s' = set_worker i W_done s" by blast
  from c worker_sum_update [OF w, of in_flight W_range]
    worker_sum_update [OF w, of in_flight W_done]
  show ?thesis by (auto simp: load_def)
qed

lemma load_check:
  assumes "do_check i nw elapsed s = Some s'"
  shows "load s' = load s"
proof -
  from do_check_cases [OF assms] obtain p where w: "worker_at s i = Some (W_checking p)"
    and c: "workers s' = (workers s)[i := W_commit (check_proxy nw elapsed (req s) p)]"
      "jobs s' = jobs s" "mgr s' = mgr s"
    by (auto split: if_splits)
  from c worker_sum_update [OF w, of in_flight "W_commit (check_proxy nw elapsed (req s) p)"]
  show ?thesis by (simp add: load_def)
qed

lemma load_append:
  assumes "do_append i s = Some s'"
  shows "load s' = load s"
proof -
  from do_append_cases [OF assms] obtain r where w: "worker_at s i = Some (W_commit r)"
    and c: "s' = set_worker i W_range
              (s\<lparr>mgr := append_result r (totalLatency s) (liveCount s) (mgr s)\<rparr>)" by blast
  from c worker_sum_update [OF w, of in_flight W_range]
  show ?thesis by (simp add: load_def)
qed

lemma load_calls:
  assumes "exec a s = Some s'" and "\<not> goroutine_step a"
  shows "load s' \<le> load s"
proof (cases a)
  case CallClearResults
  with assms show ?thesis
    using ClearResults_cases [of "mgr s"] by (auto simp: load_def)
next
  case (CallStop f)
  with assms show ?thesis by (auto simp: load_def)
next
  case CallPause
  with assms show ?thesis by (auto simp: load_def dest: Pause_frame)
next
  case CallResume
  with assms show ?thesis by (auto simp: load_def dest: Resume_frame)
next
  case CallForceStop
  with assms show ?thesis by (auto simp: load_def dest: ForceStop_frame)
next
  case CallForcePause
  with assms show ?thesis by (auto simp: load_def dest: ForcePause_frame)
qed (use assms in simp_all)

lemma load_watcher:
  assumes "do_watcher s = Some s'"
  shows "load s' = load s"
  using do_watcher_cases [OF assms] by (auto simp: load_def)

lemma exec_load:
  assumes "exec a s = Some s'"
  shows "load s' \<le> load s"
proof (cases "goroutine_step a")
  case False
  with assms load_calls show ?thesis by blast
next
  case True
  show ?thesis
  proof (cases a)
    case (Range i)
    with assms load_range [of i s s'] show ?thesis by simp
  next
    case (Select i c)
    with assms load_select [of i c s s'] show ?thesis by simp
  next
    case (Wait i)
    with assms load_wait [of i s s'] show ?thesis by simp
  next
    case (Wake i c)
    with assms load_wake [of i c s s'] show ?thesis by simp
  next
    case (Check i nw elapsed)
    with assms load_check [of i nw elapsed s s'] show ?thesis by simp
  next
    case (Append i)
    with assms load_append [of i s s'] show ?thesis by simp
  next
    case Watcher
    with assms load_watcher [of s s'] show ?thesis by simp
  qed (use True in simp_all)
qed


lemma execs_load: "execs xs s = Some s' \<Longrightarrow> load s' \<le> load s"
proof (induction xs arbitrary: s)
  case Nil
  then show ?case by simp
next
  case (Cons a xs)
  from Cons.prems obtain t where t: "exec a s = Some t" "execs xs t = Some s'"
    by (auto split: option.splits)
  from exec_load [OF t(1)] Cons.IH [OF t(2)] show ?case by simp
qed

subsection \<open>Several closures on one Manager\<close>

lemma program_steps_append:
  "program_steps (xs @ ys) g =
     (case program_steps xs g of None \<Rightarrow> None | Some g' \<Rightarrow> program_steps ys g')"
  by (induction xs arbitrary: g) (auto split: option.splits)


lemma go_step_cases:
  assumes "go_step k a g = Some g'"
  shows "k < length (closures g) \<and> goroutine_step a \<and>
     (\<exists>c. exec a ((closures g ! k)\<lparr>mgr := shared g\<rparr>) = Some c \<and>
        g' = \<lparr>shared = mgr c, closures = (closures g)[k := c]\<rparr>)"
  using assms by (auto simp: go_step_def split: if_splits option.splits)

text \<open>The method calls of \<open>exec\<close> are \<open>call_method\<close> on the closure's Manager.\<close>

lemma exec_call_method:
  "\<not> goroutine_step a \<Longrightarrow>
     exec a s = (case call_method a (mgr s) of None \<Rightarrow> None | Some m \<Rightarrow> Some (s\<lparr>mgr := m\<rparr>))"
  by (cases a) (auto split: option.splits)


text \<open>
  A sequence of steps of the goroutines of one closure, seen from the program: the
  closure runs from the shared Manager and leaves it as it leaves its own.
\<close>

lemma go_steps_lift:
  assumes "ys \<noteq> []" and "k < length (closures g)"
    and "execs ys ((closures g ! k)\<lparr>mgr := shared g\<rparr>) = Some c'"
    and "list_all goroutine_step ys"
  shows "program_steps (map (Go k) ys) g =
         Some \<lparr>shared = mgr c', closures = (closures g)[k := c']\<rparr>"
  using assms
proof (induction ys arbitrary: g rule: list_nonempty_induct)
  case (single a)
  then show ?case by (auto simp: go_step_def split: option.splits)
next
  case (cons a ys)
  from cons.prems(2) obtain c1 where c1: "exec a ((closures g ! k)\<lparr>mgr := shared g\<rparr>) = Some c1"
    and r: "execs ys c1 = Some c'" by (auto split: option.splits)
  let ?g1 = "\<lparr>shared = mgr c1, closures = (closures g)[k := c1]\<rparr>"
  from cons.prems(1,3) c1 have s: "program_step (Go k a) g = Some ?g1"
    by (simp add: go_step_def)
  have k1: "k < length (closures ?g1)" using cons.prems(1) by simp
  have e1: "execs ys ((closures ?g1 ! k)\<lparr>mgr := shared ?g1\<rparr>) = Some c'"
    using cons.prems(1) r by simp
  from cons.prems(3) have "list_all goroutine_step ys" by simp
  from cons.IH [OF k1 e1 this] s show ?case by simp
qed






text \<open>The counters follow the result collection, however many closures append.\<close>

lemma call_method_counters_match:
  assumes "call_method a m = Some m'" and "counters_match m"
  shows "counters_match m'"
proof (cases a)
  case (CallStop f)
  with assms counters_match_cong [of m' m] show ?thesis by auto
next
  case CallPause
  with assms counters_match_cong [of m' m] show ?thesis by (auto dest: Pause_frame)
next
  case CallResume
  with assms counters_match_cong [of m' m] show ?thesis by (auto dest: Resume_frame)
next
  case CallForceStop
  with assms counters_match_cong [of m' m] show ?thesis by (auto dest: ForceStop_frame)
next
  case CallForcePause
  with assms counters_match_cong [of m' m] show ?thesis by (auto dest: ForcePause_frame)
next
  case CallClearResults
  with assms counters_match_clear [of m] show ?thesis by auto
qed (use assms in simp_all)

lemma program_step_counters_match:
  assumes s: "program_step e g = Some g'" and c: "counters_match (shared g)"
  shows "counters_match (shared g')"
proof (cases e)
  case (Go k a)
  with s have "go_step k a g = Some g'" by simp
  from go_step_cases [OF this] obtain c1 where
    c1: "exec a ((closures g ! k)\<lparr>mgr := shared g\<rparr>) = Some c1"
    and g': "g' = \<lparr>shared = mgr c1, closures = (closures g)[k := c1]\<rparr>" by blast
  from exec_counters_match [OF c1] c g' show ?thesis by simp
next
  case (Call a)
  with s obtain m where "call_method a (shared g) = Some m" "g' = g\<lparr>shared := m\<rparr>"
    by (auto split: option.splits)
  with call_method_counters_match [OF _ c] show ?thesis by simp
next
  case (StartRun rq)
  show ?thesis
  proof (cases "running (shared g)")
    case True
    with s StartRun c show ?thesis by (simp add: start_run_def)
  next
    case False
    with s StartRun obtain c0 where c0: "Start rq (shared g) = Inr c0"
      and g': "g' = \<lparr>shared = mgr c0, closures = closures g @ [c0]\<rparr>"
      by (auto simp: start_run_def split: sum.splits)
    from Start_counters_match [OF c0] g' show ?thesis by simp
  qed
qed

lemma program_steps_counters_match:
  "program_steps es g = Some g' \<Longrightarrow> counters_match (shared g) \<Longrightarrow> counters_match (shared g')"
proof (induction es arbitrary: g)
  case Nil
  then show ?case by simp
next
  case (Cons e es)
  from Cons.prems(1) obtain g1 where g1: "program_step e g = Some g1"
    "program_steps es g1 = Some g'" by (auto split: option.splits)
  from Cons.IH [OF g1(2) program_step_counters_match [OF g1(1) Cons.prems(2)]] show ?case .
qed

lemma new_program_counters_match: "counters_match (shared new_program)"
  by (simp add: new_program_def NewManager_def counters_match_def zero_stats_def kind_counts_def)






subsection \<open>The running statistics against the recomputation\<close>

lemma GetStats_fields [simp]:
  "Total (GetStats m) = Total (stats m)" "Live (GetStats m) = Live (stats m)"
  "Dead (GetStats m) = Dead (stats m)" "Errors (GetStats m) = Errors (stats m)"
  "Pending (GetStats m) = Total (stats m) - Live (stats m) - Dead (stats m) - Errors (stats m)"
  "Checking (GetStats m) = 0" "TypeCounts (GetStats m) = TypeCounts (stats m)"
  "AverageSpeed (GetStats m) = AverageSpeed (stats m)" "SuccessRate (GetStats m) = 0"
  "ThreadCount (GetStats m) = 0"
  by (simp_all add: GetStats_def zero_stats_def Let_def)

lemma recomputed_fields [simp]:
  "Total (recomputed_from_results tot rs) = tot"
  "Live (recomputed_from_results tot rs) = of_nat (length (filter (\<lambda>r. Status r = ''LIVE'') rs))"
  "Dead (recomputed_from_results tot rs) = of_nat (length (filter (\<lambda>r. Status r = ''DEAD'') rs))"
  "Errors (recomputed_from_results tot rs) =
     of_nat (length (filter (\<lambda>r. Status r \<noteq> ''LIVE'' \<and> Status r \<noteq> ''DEAD'') rs))"
  "Pending (recomputed_from_results tot rs) = tot - of_nat (length rs)"
  "Checking (recomputed_from_results tot rs) = 0"
  "TypeCounts (recomputed_from_results tot rs) = kind_counts rs"
  "AverageSpeed (recomputed_from_results tot rs) = mean_of (live_latencies rs)"
  by (simp_all add: recomputed_from_results_def Let_def)

lemma outcome_partition:
  "length (filter (\<lambda>r. Status r = ''LIVE'') rs) + length (filter (\<lambda>r. Status r = ''DEAD'') rs) +
   length (filter (\<lambda>r. Status r \<noteq> ''LIVE'' \<and> Status r \<noteq> ''DEAD'') rs) = length rs"
  by (induction rs) auto

lemma counters_match_pending:
  assumes "counters_match m"
  shows "Total (stats m) - Live (stats m) - Dead (stats m) - Errors (stats m) =
         Total (stats m) - of_nat (length (results m))"
proof -
  have "(of_nat (length (results m)) :: go_int) =
        of_nat (length (filter (\<lambda>r. Status r = ''LIVE'') (results m))) +
        of_nat (length (filter (\<lambda>r. Status r = ''DEAD'') (results m))) +
        of_nat (length (filter (\<lambda>r. Status r \<noteq> ''LIVE'' \<and> Status r \<noteq> ''DEAD'') (results m)))"
    by (simp only: outcome_partition [of "results m", symmetric] of_nat_add)
  with assms show ?thesis by (simp add: counters_match_def algebra_simps)
qed

text \<open>A run of one worker on one endpoint, an HTTP proxy that answers after 42 ms.\<close>

lemma one_live_run:
  "\<exists>s0 s'. Start (example_request [''198.51.100.7:3128''] HTTP 1) NewManager = Inr s0 \<and>
     execs [Range 0, Select 0 CaseDefault, Check 0 http_network 42, Append 0,
            Range 0, Watcher] s0 = Some s' \<and>
     workers s' = [W_done] \<and> \<not> running (mgr s') \<and>
     results (mgr s') = [check_proxy http_network 42
        (example_request [''198.51.100.7:3128''] HTTP 1) ''198.51.100.7:3128''] \<and>
     Status (check_proxy http_network 42
        (example_request [''198.51.100.7:3128''] HTTP 1) ''198.51.100.7:3128'') = ''LIVE'' \<and>
     Live (stats (mgr s')) = 1 \<and> AverageSpeed (stats (mgr s')) = 42 \<and>
     Total (stats (mgr s')) = 1"
proof -
  let ?p = "''198.51.100.7:3128''"
  let ?rq = "example_request [?p] HTTP 1"
  obtain s0 where s0: "Start ?rq NewManager = Inr s0"
    and s0w: "workers s0 = [W_range]" and s0j: "jobs s0 = [?p]" and s0q: "req s0 = ?rq"
    and s0d: "\<not> watcher_done s0" and s0t: "totalLatency s0 = 0" "liveCount s0 = 0"
    and s0m: "closed (mgr s0) = {}" "results (mgr s0) = []" "Live (stats (mgr s0)) = 0"
      "Total (stats (mgr s0)) = 1"
    by (simp add: Start_def example_request_def NewManager_def word_sless_alt zero_stats_def)
  have r: "Status (check_proxy http_network 42 ?rq ?p) = ''LIVE''"
    by (simp add: check_proxy_def resolve_type_def run_check_def CheckHTTP_def
        http_network_def refusing_network_def example_request_def type_defs Let_def)
  obtain s1 where s1: "execs [Range 0, Select 0 CaseDefault, Check 0 http_network 42] s0 = Some s1"
    and s1w: "workers s1 = [W_commit (check_proxy http_network 42 ?rq ?p)]"
    and s1j: "jobs s1 = []" and s1d: "\<not> watcher_done s1"
    and s1t: "totalLatency s1 = 42" "liveCount s1 = 1"
    and s1m: "results (mgr s1) = []" "Live (stats (mgr s1)) = 0" "Total (stats (mgr s1)) = 1"
    using s0w s0j s0q s0d s0m s0t r
    by (simp add: do_range_def do_select_def do_check_def worker_at_def set_worker_def Let_def)
  have g: "go_div 42 1 = 42" by (simp add: go_div_def signed_divide_int_def)
  obtain s2 where s2: "execs [Append 0, Range 0, Watcher] s1 = Some s2"
    and s2w: "workers s2 = [W_done]"
    and s2m: "results (mgr s2) = [check_proxy http_network 42 ?rq ?p]"
      "Live (stats (mgr s2)) = 1" "\<not> running (mgr s2)" "AverageSpeed (stats (mgr s2)) = 42"
      "Total (stats (mgr s2)) = 1"
    using s1w s1j s1d s1m s1t r g
    by (simp add: do_append_def do_range_def do_watcher_def completed_def worker_at_def
        set_worker_def Let_def word_sless_alt)
  have e: "execs [Range 0, Select 0 CaseDefault, Check 0 http_network 42, Append 0,
                  Range 0, Watcher] s0 = Some s2"
    using execs_append [of "[Range 0, Select 0 CaseDefault, Check 0 http_network 42]"
        "[Append 0, Range 0, Watcher]" s0] s1 s2 by simp
  from s0 e s2w s2m r show ?thesis by blast
qed

text \<open>
  C2 does not hold of the code: the snapshot carries no success rate. The worker loop
  never writes \<open>m.stats.SuccessRate\<close> and \<open>GetStats\<close> does not copy the field, so it
  is \<open>0\<close> in the snapshot of every Manager. After the run of one worker on one endpoint
  that answers, the snapshot shows one live result out of one and a success rate of
  \<open>0\<close>, where the statistics recomputed from the result collection have \<open>100\<close>.
\<close>

theorem snapshot_without_success_rate:
  "SuccessRate (GetStats m) = 0 \<and>
   (case Start (example_request [''198.51.100.7:3128''] HTTP 1) NewManager of
      Inl e \<Rightarrow> False
    | Inr s0 \<Rightarrow>
        (case execs [Range 0, Select 0 CaseDefault, Check 0 http_network 42, Append 0,
                     Range 0, Watcher] s0 of
           None \<Rightarrow> False
         | Some s' \<Rightarrow>
             completed s' \<and> \<not> IsRunning (mgr s') \<and> length (GetResults (mgr s')) = 1 \<and>
             Total (GetStats (mgr s')) = 1 \<and> Live (GetStats (mgr s')) = 1 \<and>
             SuccessRate (GetStats (mgr s')) = 0 \<and>
             SuccessRate (recomputed_from_results (Total (GetStats (mgr s')))
               (GetResults (mgr s'))) = 100))"
proof -
  from one_live_run obtain s0 s' where
    s0: "Start (example_request [''198.51.100.7:3128''] HTTP 1) NewManager = Inr s0" and
    e: "execs [Range 0, Select 0 CaseDefault, Check 0 http_network 42, Append 0,
               Range 0, Watcher] s0 = Some s'" and
    f: "workers s' = [W_done]" "\<not> running (mgr s')"
       "results (mgr s') = [check_proxy http_network 42
          (example_request [''198.51.100.7:3128''] HTTP 1) ''198.51.100.7:3128'']"
       "Status (check_proxy http_network 42
          (example_request [''198.51.100.7:3128''] HTTP 1) ''198.51.100.7:3128'') = ''LIVE''"
       "Live (stats (mgr s')) = 1" "Total (stats (mgr s')) = 1"
    by blast
  have "SuccessRate (recomputed_from_results (Total (GetStats (mgr s'))) (GetResults (mgr s'))) = 100"
    using f by (simp add: recomputed_from_results_def GetResults_def Let_def)
  then have "(case Start (example_request [''198.51.100.7:3128''] HTTP 1) NewManager of
      Inl e \<Rightarrow> False
    | Inr s0 \<Rightarrow>
        (case execs [Range 0, Select 0 CaseDefault, Check 0 http_network 42, Append 0,
                     Range 0, Watcher] s0 of
           None \<Rightarrow> False
         | Some s' \<Rightarrow>
             completed s' \<and> \<not> IsRunning (mgr s') \<and> length (GetResults (mgr s')) = 1 \<and>
             Total (GetStats (mgr s')) = 1 \<and> Live (GetStats (mgr s')) = 1 \<and>
             SuccessRate (GetStats (mgr s')) = 0 \<and>
             SuccessRate (recomputed_from_results (Total (GetStats (mgr s')))
               (GetResults (mgr s'))) = 100))"
    unfolding s0 sum.case e option.case
    using f by (simp add: completed_def IsRunning_def GetResults_def)
  then show ?thesis by simp
qed

text \<open>
  The counters and the per-kind counts do follow the result collection: in every state
  the program reaches, whatever the caller does and however many closures append.
\<close>

lemma snapshot_counters_match_recomputation:
  assumes "program_steps es new_program = Some g"
  shows "Live (GetStats (shared g)) =
           Live (recomputed_from_results (Total (GetStats (shared g))) (GetResults (shared g)))"
    and "Dead (GetStats (shared g)) =
           Dead (recomputed_from_results (Total (GetStats (shared g))) (GetResults (shared g)))"
    and "Errors (GetStats (shared g)) =
           Errors (recomputed_from_results (Total (GetStats (shared g))) (GetResults (shared g)))"
    and "Pending (GetStats (shared g)) =
           Pending (recomputed_from_results (Total (GetStats (shared g))) (GetResults (shared g)))"
    and "TypeCounts (GetStats (shared g)) =
           TypeCounts (recomputed_from_results (Total (GetStats (shared g))) (GetResults (shared g)))"
proof -
  from program_steps_counters_match [OF assms new_program_counters_match]
  have cm: "counters_match (shared g)" .
  note pe = counters_match_pending [OF cm]
  from cm pe show "Live (GetStats (shared g)) =
           Live (recomputed_from_results (Total (GetStats (shared g))) (GetResults (shared g)))"
    and "Dead (GetStats (shared g)) =
           Dead (recomputed_from_results (Total (GetStats (shared g))) (GetResults (shared g)))"
    and "Errors (GetStats (shared g)) =
           Errors (recomputed_from_results (Total (GetStats (shared g))) (GetResults (shared g)))"
    and "Pending (GetStats (shared g)) =
           Pending (recomputed_from_results (Total (GetStats (shared g))) (GetResults (shared g)))"
    and "TypeCounts (GetStats (shared g)) =
           TypeCounts (recomputed_from_results (Total (GetStats (shared g))) (GetResults (shared g)))"
    by (simp_all add: GetResults_def counters_match_def)
qed

text \<open>
  The average latency parts from the result collection in two more ways, both because
  the latency totals live in the closure of \<open>Start\<close>. First, \<open>ClearResults\<close> does not
  reach them: after a pause, a clear and a resume the next append writes the mean over
  every live probe of the run, not over the results that are left: \<open>30\<close> for probes of
  40 and 20 ms, where the one result kept took 20.
\<close>

lemma average_speed_after_clear:
  "(case Start (example_request [''198.51.100.7:3128'', ''198.51.100.8:3128''] HTTP 1) NewManager of
      Inl e \<Rightarrow> False
    | Inr s0 \<Rightarrow>
        (case execs [Range 0, Select 0 CaseDefault, Check 0 http_network 40, Append 0,
                     CallPause, CallClearResults, CallResume,
                     Range 0, Select 0 CaseDefault, Check 0 http_network 20, Append 0,
                     Range 0, Watcher] s0 of
           None \<Rightarrow> False
         | Some s' \<Rightarrow>
             completed s' \<and> length (GetResults (mgr s')) = 1 \<and>
             AverageSpeed (GetStats (mgr s')) = 30 \<and>
             AverageSpeed (recomputed_from_results (Total (GetStats (mgr s')))
               (GetResults (mgr s'))) = 20))"
proof -
  let ?p = "''198.51.100.7:3128''"
  let ?q = "''198.51.100.8:3128''"
  let ?rq = "example_request [?p, ?q] HTTP 1"
  have r: "Status (check_proxy http_network t ?rq a) = ''LIVE''" if "CHR '':'' \<in> set a" for t a
    using that
    by (simp add: check_proxy_def resolve_type_def run_check_def CheckHTTP_def
        http_network_def refusing_network_def example_request_def type_defs Let_def)
  obtain s0 where s0: "Start ?rq NewManager = Inr s0"
    and s0w: "workers s0 = [W_range]" and s0j: "jobs s0 = [?p, ?q]" and s0q: "req s0 = ?rq"
    and s0d: "\<not> watcher_done s0" and s0t: "totalLatency s0 = 0" "liveCount s0 = 0"
    and s0m: "closed (mgr s0) = {}" "results (mgr s0) = []" "running (mgr s0)"
      "\<not> paused (mgr s0)" "stopChan (mgr s0) = 3" "pauseChan (mgr s0) = 4"
      "resumeChan (mgr s0) = 5" "nextChan (mgr s0) = 6"
    by (simp add: Start_def example_request_def NewManager_def word_sless_alt zero_stats_def
        eval_nat_numeral)
  obtain s1 where s1: "execs [Range 0, Select 0 CaseDefault, Check 0 http_network 40, Append 0] s0 = Some s1"
    and s1w: "workers s1 = [W_range]" and s1j: "jobs s1 = [?q]" and s1q: "req s1 = ?rq"
    and s1d: "\<not> watcher_done s1" and s1t: "totalLatency s1 = 40" "liveCount s1 = 1"
    and s1m: "closed (mgr s1) = {}" "running (mgr s1)"
      "\<not> paused (mgr s1)" "stopChan (mgr s1) = 3" "pauseChan (mgr s1) = 4"
      "resumeChan (mgr s1) = 5" "nextChan (mgr s1) = 6"
    using s0w s0j s0q s0d s0t s0m r [of ?p 40]
    by (simp add: do_range_def do_select_def do_check_def do_append_def worker_at_def
        set_worker_def Let_def)
  obtain s2 where s2: "execs [CallPause, CallClearResults, CallResume] s1 = Some s2"
    and s2w: "workers s2 = [W_range]" and s2j: "jobs s2 = [?q]" and s2q: "req s2 = ?rq"
    and s2d: "\<not> watcher_done s2" and s2t: "totalLatency s2 = 40" "liveCount s2 = 1"
    and s2m: "closed (mgr s2) = {4, 5}" "results (mgr s2) = []"
      "stopChan (mgr s2) = 3" "pauseChan (mgr s2) = 6"
    using s1w s1j s1q s1d s1t s1m
    by (simp add: Pause_def Resume_def ClearResults_def insert_commute)
  obtain s3 where s3: "execs [Range 0, Select 0 CaseDefault, Check 0 http_network 20, Append 0,
                              Range 0, Watcher] s2 = Some s3"
    and s3w: "workers s3 = [W_done]"
    and s3m: "results (mgr s3) = [check_proxy http_network 20 ?rq ?q]"
      "AverageSpeed (stats (mgr s3)) = go_div 60 2"
    using s2w s2j s2q s2d s2t s2m r [of ?q 20]
    by (simp add: do_range_def do_select_def do_check_def do_append_def do_watcher_def
        completed_def worker_at_def set_worker_def Let_def word_sless_alt)
  have e: "execs [Range 0, Select 0 CaseDefault, Check 0 http_network 40, Append 0,
                  CallPause, CallClearResults, CallResume,
                  Range 0, Select 0 CaseDefault, Check 0 http_network 20, Append 0,
                  Range 0, Watcher] s0 = Some s3"
    using execs_append [of "[Range 0, Select 0 CaseDefault, Check 0 http_network 40, Append 0]"
        "[CallPause, CallClearResults, CallResume,
          Range 0, Select 0 CaseDefault, Check 0 http_network 20, Append 0, Range 0, Watcher]" s0]
      execs_append [of "[CallPause, CallClearResults, CallResume]"
        "[Range 0, Select 0 CaseDefault, Check 0 http_network 20, Append 0, Range 0, Watcher]" s1]
      s1 s2 s3 by simp
  have g: "go_div 60 2 = 30" "go_div 20 1 = 20"
    by (simp_all add: go_div_def signed_divide_int_def)
  have "AverageSpeed (recomputed_from_results (Total (GetStats (mgr s3))) (GetResults (mgr s3))) = 20"
    using s3m r [of ?q 20] by (simp add: GetResults_def live_latencies_def mean_of_def g)
  then show ?thesis
    unfolding s0 sum.case e option.case
    using s3w s3m by (simp add: completed_def GetResults_def g)
qed

text \<open>
  Second, \<open>Stop\<close> clears \<open>running\<close> while a probe is in flight, so \<open>Start\<close> can reset
  the Manager under the worker that makes it. That worker then appends to the results
  of the new run and writes the average of its own closure: below, the new run of one
  endpoint ends with two live results against \<open>Total = 1\<close>, \<open>Pending = -1\<close>, and an
  average of \<open>100\<close> where the two results took 50 and 100 ms.
\<close>

lemma overlapping_runs_average_speed:
  "(case program_steps
       [StartRun (example_request [''198.51.100.7:3128''] HTTP 1),
        Go 0 (Range 0), Go 0 (Select 0 CaseDefault),
        Call (CallStop True),
        StartRun (example_request [''198.51.100.8:3128''] HTTP 1),
        Go 1 (Range 0), Go 1 (Select 0 CaseDefault), Go 1 (Check 0 http_network 50),
        Go 1 (Append 0),
        Go 0 (Check 0 http_network 100), Go 0 (Append 0),
        Go 0 (Range 0), Go 1 (Range 0), Go 1 Watcher, Go 0 Watcher] new_program of
      None \<Rightarrow> False
    | Some g' \<Rightarrow>
        list_all finished (closures g') \<and> length (GetResults (shared g')) = 2 \<and>
        Total (GetStats (shared g')) = 1 \<and> Live (GetStats (shared g')) = 2 \<and>
        Pending (GetStats (shared g')) = - 1 \<and>
        AverageSpeed (GetStats (shared g')) = 100 \<and>
        AverageSpeed (recomputed_from_results (Total (GetStats (shared g')))
          (GetResults (shared g'))) = 75)"
proof -
  let ?p = "''198.51.100.7:3128''"
  let ?q = "''198.51.100.8:3128''"
  let ?A = "example_request [?p] HTTP 1"
  let ?B = "example_request [?q] HTTP 1"
  let ?ra = "check_proxy http_network 100 ?A ?p"
  let ?rb = "check_proxy http_network 50 ?B ?q"
  have r: "Status (check_proxy http_network t (example_request l HTTP 1) a) = ''LIVE''"
    if "CHR '':'' \<in> set a" for t l a
    using that
    by (simp add: check_proxy_def resolve_type_def run_check_def CheckHTTP_def
        http_network_def refusing_network_def example_request_def type_defs Let_def)
  have g: "go_div 50 1 = 50" "go_div 100 1 = 100" "go_div 150 2 = 75"
    by (simp_all add: go_div_def signed_divide_int_def)
  obtain g1 a1 where g1: "program_steps [StartRun ?A, Go 0 (Range 0), Go 0 (Select 0 CaseDefault)]
        new_program = Some g1"
    and g1c: "closures g1 = [a1]"
    and a1: "workers a1 = [W_checking ?p]" "jobs a1 = []" "req a1 = ?A" "\<not> watcher_done a1"
      "totalLatency a1 = 0" "liveCount a1 = 0"
    and g1m: "running (shared g1)" "closed (shared g1) = {}" "stopChan (shared g1) = 3"
      "nextChan (shared g1) = 6"
    by (simp add: new_program_def start_run_def Start_def go_step_def do_range_def do_select_def
        worker_at_def set_worker_def NewManager_def example_request_def word_sless_alt Let_def
        eval_nat_numeral zero_stats_def)
  obtain g2 b2 where g2: "program_steps [Call (CallStop True), StartRun ?B] g1 = Some g2"
    and g2c: "closures g2 = [a1, b2]"
    and b2: "workers b2 = [W_range]" "jobs b2 = [?q]" "req b2 = ?B" "\<not> watcher_done b2"
      "totalLatency b2 = 0" "liveCount b2 = 0"
    and g2m: "closed (shared g2) = {3}" "stopChan (shared g2) = 6" "pauseChan (shared g2) = 7"
      "results (shared g2) = []" "Total (stats (shared g2)) = 1" "Live (stats (shared g2)) = 0"
      "Dead (stats (shared g2)) = 0" "Errors (stats (shared g2)) = 0"
    using g1c g1m
    by (simp add: start_run_def Start_def Stop_def example_request_def word_sless_alt
        eval_nat_numeral zero_stats_def)
  obtain g3 b3 where g3: "program_steps [Go 1 (Range 0), Go 1 (Select 0 CaseDefault),
        Go 1 (Check 0 http_network 50), Go 1 (Append 0)] g2 = Some g3"
    and g3c: "closures g3 = [a1, b3]"
    and b3: "workers b3 = [W_range]" "jobs b3 = []" "\<not> watcher_done b3"
    and g3m: "closed (shared g3) = {3}" "stopChan (shared g3) = 6" "pauseChan (shared g3) = 7"
      "results (shared g3) = [?rb]" "Total (stats (shared g3)) = 1"
      "Live (stats (shared g3)) = 1" "Dead (stats (shared g3)) = 0"
      "Errors (stats (shared g3)) = 0" "AverageSpeed (stats (shared g3)) = 50"
    using g2c b2 g2m r [of ?q 50 "[?q]"] g
    by (simp add: go_step_def do_range_def do_select_def do_check_def do_append_def
        worker_at_def set_worker_def Let_def word_sless_alt)
  obtain g4 a4 where g4: "program_steps [Go 0 (Check 0 http_network 100), Go 0 (Append 0)] g3 =
        Some g4"
    and g4c: "closures g4 = [a4, b3]"
    and a4: "workers a4 = [W_range]" "jobs a4 = []" "\<not> watcher_done a4"
    and g4m: "results (shared g4) = [?rb, ?ra]" "Total (stats (shared g4)) = 1"
      "Live (stats (shared g4)) = 2" "Dead (stats (shared g4)) = 0"
      "Errors (stats (shared g4)) = 0" "AverageSpeed (stats (shared g4)) = 100"
    using g3c a1 g3m r [of ?p 100 "[?p]"] g
    by (simp add: go_step_def do_check_def do_append_def worker_at_def set_worker_def Let_def
        word_sless_alt)
  obtain g5 a5 b5 where g5: "program_steps [Go 0 (Range 0), Go 1 (Range 0), Go 1 Watcher,
        Go 0 Watcher] g4 = Some g5"
    and g5c: "closures g5 = [a5, b5]"
    and f5: "workers a5 = [W_done]" "watcher_done a5" "workers b5 = [W_done]" "watcher_done b5"
    and g5m: "results (shared g5) = [?rb, ?ra]" "Total (stats (shared g5)) = 1"
      "Live (stats (shared g5)) = 2" "Dead (stats (shared g5)) = 0"
      "Errors (stats (shared g5)) = 0" "AverageSpeed (stats (shared g5)) = 100"
    using g4c a4 b3 g4m
    by (simp add: go_step_def do_range_def do_watcher_def completed_def worker_at_def
        set_worker_def)
  have e: "program_steps
       [StartRun ?A, Go 0 (Range 0), Go 0 (Select 0 CaseDefault),
        Call (CallStop True), StartRun ?B,
        Go 1 (Range 0), Go 1 (Select 0 CaseDefault), Go 1 (Check 0 http_network 50),
        Go 1 (Append 0),
        Go 0 (Check 0 http_network 100), Go 0 (Append 0),
        Go 0 (Range 0), Go 1 (Range 0), Go 1 Watcher, Go 0 Watcher] new_program = Some g5"
    using program_steps_append [of "[StartRun ?A, Go 0 (Range 0), Go 0 (Select 0 CaseDefault)]"
        "[Call (CallStop True), StartRun ?B,
          Go 1 (Range 0), Go 1 (Select 0 CaseDefault), Go 1 (Check 0 http_network 50),
          Go 1 (Append 0),
          Go 0 (Check 0 http_network 100), Go 0 (Append 0),
          Go 0 (Range 0), Go 1 (Range 0), Go 1 Watcher, Go 0 Watcher]" new_program]
      program_steps_append [of "[Call (CallStop True), StartRun ?B]"
        "[Go 1 (Range 0), Go 1 (Select 0 CaseDefault), Go 1 (Check 0 http_network 50),
          Go 1 (Append 0),
          Go 0 (Check 0 http_network 100), Go 0 (Append 0),
          Go 0 (Range 0), Go 1 (Range 0), Go 1 Watcher, Go 0 Watcher]" g1]
      program_steps_append [of "[Go 1 (Range 0), Go 1 (Select 0 CaseDefault),
          Go 1 (Check 0 http_network 50), Go 1 (Append 0)]"
        "[Go 0 (Check 0 http_network 100), Go 0 (Append 0),
          Go 0 (Range 0), Go 1 (Range 0), Go 1 Watcher, Go 0 Watcher]" g2]
      program_steps_append [of "[Go 0 (Check 0 http_network 100), Go 0 (Append 0)]"
        "[Go 0 (Range 0), Go 1 (Range 0), Go 1 Watcher, Go 0 Watcher]" g3]
      g1 g2 g3 g4 g5 by simp
  have "AverageSpeed (recomputed_from_results (Total (GetStats (shared g5)))
          (GetResults (shared g5))) = 75"
    using g5m r [of ?q 50 "[?q]"] r [of ?p 100 "[?p]"]
    by (simp add: GetResults_def live_latencies_def mean_of_def g)
  then show ?thesis
    unfolding e option.case
    using g5c f5 g5m by (simp add: finished_def completed_def GetResults_def)
qed

subsection \<open>A run left alone in which every probe fails\<close>




lemma worker_at_mem: "worker_at s i = Some w \<Longrightarrow> w \<in> set (workers s)"
  by (auto simp: worker_at_Some)












lemma exec_workers_length:
  assumes "exec a s = Some s'"
  shows "length (workers s') = length (workers s)"
proof (cases "goroutine_step a")
  case False
  with assms exec_call_frame show ?thesis by simp
next
  case True
  show ?thesis
  proof (cases a)
    case (Range i)
    with assms show ?thesis by (auto dest!: do_range_cases)
  next
    case (Select i c)
    with assms show ?thesis by (auto dest!: do_select_cases)
  next
    case (Wait i)
    with assms show ?thesis by (auto dest!: do_wait_cases)
  next
    case (Wake i c)
    with assms show ?thesis by (auto dest!: do_wake_cases)
  next
    case (Check i nw elapsed)
    with assms show ?thesis by (auto dest!: do_check_cases)
  next
    case (Append i)
    with assms show ?thesis by (auto dest!: do_append_cases)
  next
    case Watcher
    with assms show ?thesis by (auto dest!: do_watcher_cases)
  qed (use True in simp_all)
qed

lemma execs_workers_length:
  "execs xs s = Some s' \<Longrightarrow> length (workers s') = length (workers s)"
proof (induction xs arbitrary: s)
  case Nil
  then show ?case by simp
next
  case (Cons a xs)
  from Cons.prems obtain t where t: "exec a s = Some t" "execs xs t = Some s'"
    by (auto split: option.splits)
  from exec_workers_length [OF t(1)] Cons.IH [OF t(2)] show ?case by simp
qed









text \<open>
  Two more runs in which no probe succeeds and \<open>Dead\<close> is not \<open>Total\<close>. A run with no
  worker ends as soon as the watcher has run, with every endpoint still pending. And a
  worker of a stopped run whose probe is in flight when \<open>Start\<close> is called again
  appends to the new run: two \<open>DEAD\<close> results against \<open>Total = 1\<close>.
\<close>

lemma run_without_workers:
  "(case program_steps [StartRun (example_request [''203.0.113.9:8080''] HTTP 0), Go 0 Watcher]
       new_program of
      None \<Rightarrow> False
    | Some g' \<Rightarrow>
        list_all finished (closures g') \<and> GetResults (shared g') = [] \<and>
        Dead (GetStats (shared g')) = 0 \<and> Total (GetStats (shared g')) = 1 \<and>
        Pending (GetStats (shared g')) = 1)"
  by (simp add: new_program_def start_run_def Start_def go_step_def do_watcher_def
      completed_def finished_def NewManager_def example_request_def word_sless_alt
      zero_stats_def GetResults_def)

lemma stale_worker_dead_above_total:
  "(case program_steps
       [StartRun (example_request [''203.0.113.8:8080''] HTTP 1),
        Go 0 (Range 0), Go 0 (Select 0 CaseDefault),
        Call (CallStop True),
        StartRun (example_request [''203.0.113.9:8080''] HTTP 1),
        Go 1 (Range 0), Go 1 (Select 0 CaseDefault), Go 1 (Check 0 refusing_network 5),
        Go 1 (Append 0),
        Go 0 (Check 0 refusing_network 9), Go 0 (Append 0),
        Go 0 (Range 0), Go 1 (Range 0), Go 1 Watcher, Go 0 Watcher] new_program of
      None \<Rightarrow> False
    | Some g' \<Rightarrow>
        list_all finished (closures g') \<and>
        map Proxy (GetResults (shared g')) = [''203.0.113.9:8080'', ''203.0.113.8:8080''] \<and>
        map Status (GetResults (shared g')) = [''DEAD'', ''DEAD''] \<and>
        Total (GetStats (shared g')) = 1 \<and> Live (GetStats (shared g')) = 0 \<and>
        Dead (GetStats (shared g')) = 2 \<and> Pending (GetStats (shared g')) = - 1)"
proof -
  let ?p = "''203.0.113.8:8080''"
  let ?q = "''203.0.113.9:8080''"
  let ?A = "example_request [?p] HTTP 1"
  let ?B = "example_request [?q] HTTP 1"
  let ?ra = "check_proxy refusing_network 9 ?A ?p"
  let ?rb = "check_proxy refusing_network 5 ?B ?q"
  have r: "Status (check_proxy refusing_network t (example_request l HTTP 1) a) = ''DEAD''"
    for t l a
    by (simp add: check_proxy_def resolve_type_def run_check_def CheckHTTP_def
        refusing_network_def example_request_def type_defs Let_def)
  obtain g1 a1 where g1: "program_steps [StartRun ?A, Go 0 (Range 0), Go 0 (Select 0 CaseDefault)]
        new_program = Some g1"
    and g1c: "closures g1 = [a1]"
    and a1: "workers a1 = [W_checking ?p]" "jobs a1 = []" "req a1 = ?A" "\<not> watcher_done a1"
      "totalLatency a1 = 0" "liveCount a1 = 0"
    and g1m: "running (shared g1)" "closed (shared g1) = {}" "stopChan (shared g1) = 3"
      "nextChan (shared g1) = 6"
    by (simp add: new_program_def start_run_def Start_def go_step_def do_range_def do_select_def
        worker_at_def set_worker_def NewManager_def example_request_def word_sless_alt Let_def
        eval_nat_numeral zero_stats_def)
  obtain g2 b2 where g2: "program_steps [Call (CallStop True), StartRun ?B] g1 = Some g2"
    and g2c: "closures g2 = [a1, b2]"
    and b2: "workers b2 = [W_range]" "jobs b2 = [?q]" "req b2 = ?B" "\<not> watcher_done b2"
      "totalLatency b2 = 0" "liveCount b2 = 0"
    and g2m: "closed (shared g2) = {3}" "stopChan (shared g2) = 6" "pauseChan (shared g2) = 7"
      "results (shared g2) = []" "Total (stats (shared g2)) = 1" "Live (stats (shared g2)) = 0"
      "Dead (stats (shared g2)) = 0" "Errors (stats (shared g2)) = 0"
    using g1c g1m
    by (simp add: start_run_def Start_def Stop_def example_request_def word_sless_alt
        eval_nat_numeral zero_stats_def)
  obtain g3 b3 where g3: "program_steps [Go 1 (Range 0), Go 1 (Select 0 CaseDefault),
        Go 1 (Check 0 refusing_network 5), Go 1 (Append 0)] g2 = Some g3"
    and g3c: "closures g3 = [a1, b3]"
    and b3: "workers b3 = [W_range]" "jobs b3 = []" "\<not> watcher_done b3"
    and g3m: "results (shared g3) = [?rb]" "Total (stats (shared g3)) = 1"
      "Live (stats (shared g3)) = 0" "Dead (stats (shared g3)) = 1"
      "Errors (stats (shared g3)) = 0"
    using g2c b2 g2m r [of 5 "[?q]" ?q]
    by (simp add: go_step_def do_range_def do_select_def do_check_def do_append_def
        worker_at_def set_worker_def Let_def)
  obtain g4 a4 where g4: "program_steps [Go 0 (Check 0 refusing_network 9), Go 0 (Append 0)] g3 =
        Some g4"
    and g4c: "closures g4 = [a4, b3]"
    and a4: "workers a4 = [W_range]" "jobs a4 = []" "\<not> watcher_done a4"
    and g4m: "results (shared g4) = [?rb, ?ra]" "Total (stats (shared g4)) = 1"
      "Live (stats (shared g4)) = 0" "Dead (stats (shared g4)) = 2"
      "Errors (stats (shared g4)) = 0"
    using g3c a1 g3m r [of 9 "[?p]" ?p]
    by (simp add: go_step_def do_check_def do_append_def worker_at_def set_worker_def Let_def)
  obtain g5 a5 b5 where g5: "program_steps [Go 0 (Range 0), Go 1 (Range 0), Go 1 Watcher,
        Go 0 Watcher] g4 = Some g5"
    and g5c: "closures g5 = [a5, b5]"
    and f5: "workers a5 = [W_done]" "watcher_done a5" "workers b5 = [W_done]" "watcher_done b5"
    and g5m: "results (shared g5) = [?rb, ?ra]" "Total (stats (shared g5)) = 1"
      "Live (stats (shared g5)) = 0" "Dead (stats (shared g5)) = 2"
      "Errors (stats (shared g5)) = 0"
    using g4c a4 b3 g4m
    by (simp add: go_step_def do_range_def do_watcher_def completed_def worker_at_def
        set_worker_def)
  have "program_steps
       ([StartRun ?A, Go 0 (Range 0), Go 0 (Select 0 CaseDefault)] @
        [Call (CallStop True), StartRun ?B] @
        [Go 1 (Range 0), Go 1 (Select 0 CaseDefault), Go 1 (Check 0 refusing_network 5),
         Go 1 (Append 0)] @
        [Go 0 (Check 0 refusing_network 9), Go 0 (Append 0)] @
        [Go 0 (Range 0), Go 1 (Range 0), Go 1 Watcher, Go 0 Watcher]) new_program = Some g5"
    using g1 g2 g3 g4 g5 by (simp only: program_steps_append option.case)
  then have e: "program_steps
       [StartRun ?A, Go 0 (Range 0), Go 0 (Select 0 CaseDefault),
        Call (CallStop True), StartRun ?B,
        Go 1 (Range 0), Go 1 (Select 0 CaseDefault), Go 1 (Check 0 refusing_network 5),
        Go 1 (Append 0),
        Go 0 (Check 0 refusing_network 9), Go 0 (Append 0),
        Go 0 (Range 0), Go 1 (Range 0), Go 1 Watcher, Go 0 Watcher] new_program = Some g5"
    by (simp only: append.simps)
  show ?thesis
    unfolding e option.case
    using g5c f5 g5m r [of 5 "[?q]" ?q] r [of 9 "[?p]" ?p]
    by (simp add: finished_def completed_def GetResults_def)
qed



end
